theory Spec2Isabelle
  imports Complex_Main "HOL-Library.Log_Nat" "HOL-Library.Multiset"
begin

section \<open>Shovel: the project scanner and its HTTP front end\<close>

text \<open>
  A shallow embedding of \<^verbatim>\<open>scanner.js\<close> (class \<^verbatim>\<open>ProjectScanner\<close>) and of the scan
  route of the Express server (\<^verbatim>\<open>rateLimit\<close>, \<^verbatim>\<open>isValidGitHubUrl\<close>,
  \<^verbatim>\<open>cloneRepository\<close>, \<^verbatim>\<open>cleanupTempDir\<close> and the \<^verbatim>\<open>POST /api/scan\<close> handler).
  JavaScript strings are modelled as \<open>string\<close>, one \<open>char\<close> per code unit; the
  checked-out tree is a finite tree of directories and regular files; exceptions are
  values of a sum type.
\<close>

subsection \<open>String primitives of the runtime\<close>

text \<open>\<^verbatim>\<open>s.startsWith(p)\<close> and \<^verbatim>\<open>s.includes(t)\<close>.\<close>

fun startsWith :: "string \<Rightarrow> string \<Rightarrow> bool" where
  "startsWith s [] = True"
| "startsWith [] (p # ps) = False"
| "startsWith (c # cs) (p # ps) = (c = p \<and> startsWith cs ps)"

fun str_includes :: "string \<Rightarrow> string \<Rightarrow> bool" where
  "str_includes [] t = (t = [])"
| "str_includes (c # cs) t = (startsWith (c # cs) t \<or> str_includes cs t)"

text \<open>\<^verbatim>\<open>s.toLowerCase()\<close>, on the ASCII letters (other code units are left alone).\<close>

definition toLowerCase :: "string \<Rightarrow> string" where
  "toLowerCase s =
     map (\<lambda>c. case map_of (zip ''ABCDEFGHIJKLMNOPQRSTUVWXYZ'' ''abcdefghijklmnopqrstuvwxyz'') c of
                 None \<Rightarrow> c | Some l \<Rightarrow> l) s"

text \<open>\<^verbatim>\<open>xs.join(sep)\<close>.\<close>

fun join :: "string \<Rightarrow> string list \<Rightarrow> string" where
  "join sep [] = []"
| "join sep [x] = x"
| "join sep (x # y # ys) = x @ sep @ join sep (y # ys)"

text \<open>
  \<^verbatim>\<open>path.extname(name)\<close> for a directory entry name (no separator in it): the suffix from
  the last dot, and the empty string when there is no dot, when the only dot is the first
  character, or when the name is \<^verbatim>\<open>..\<close>.
\<close>

definition extname :: "string \<Rightarrow> string" where
  "extname n =
     (let ext = CHR ''.'' # rev (takeWhile (\<lambda>c. c \<noteq> CHR ''.'') (rev n)) in
      if CHR ''.'' \<notin> set n then []
      else if length ext = length n then []
      else if n = ''..'' then []
      else ext)"

text \<open>Decimal rendering of an array index, as \<^verbatim>\<open>Object.keys\<close> lists it.\<close>

function show_nat :: "nat \<Rightarrow> string" where
  "show_nat n =
     (if n < 10 then [''0123456789'' ! n]
      else show_nat (n div 10) @ [''0123456789'' ! (n mod 10)])"
  by pat_completeness auto
termination
  by (relation "measure id") auto

subsection \<open>The checked-out tree\<close>

text \<open>
  A regular file carries the size \<^verbatim>\<open>fs.statSync\<close> reports and its decoded content; a
  directory carries its entries in the order \<^verbatim>\<open>fs.readdirSync\<close> lists them. A symbolic
  link carries the node its path resolves to, which is what \<^verbatim>\<open>fs.statSync\<close>,
  \<^verbatim>\<open>fs.existsSync\<close> and \<^verbatim>\<open>fs.readFileSync\<close> find there, since they follow links. A link
  that does not resolve (its target is missing, or the links form a cycle) carries the
  text of the system error instead, such as \<^verbatim>\<open>ENOENT: no such file or directory\<close>.
  Special files (sockets, devices) are not modelled: a clone does not create them. A
  path is the list of its components.
\<close>

datatype fsnode =
    File nat string
  | Dir "(string \<times> fsnode) list"
  | Link fsnode
  | BrokenLink string

type_synonym entries = "(string \<times> fsnode) list"
type_synonym path = "string list"

definition path_str :: "path \<Rightarrow> string" where
  "path_str p = join ''/'' p"

text \<open>The file or directory found by following a link to its end, if there is one.\<close>

fun follow :: "fsnode \<Rightarrow> fsnode option" where
  "follow (File sz c) = Some (File sz c)"
| "follow (Dir es) = Some (Dir es)"
| "follow (Link t) = follow t"
| "follow (BrokenLink m) = None"

text \<open>The file or directory at a path below a directory, links followed at every
  component.\<close>

fun lookup :: "entries \<Rightarrow> path \<Rightarrow> fsnode option" where
  "lookup es [] = Some (Dir es)"
| "lookup es (n # ns) =
     (case map_of es n of
        None \<Rightarrow> None
      | Some t \<Rightarrow>
          (case follow t of
             Some (File sz c) \<Rightarrow> (if ns = [] then Some (File sz c) else None)
           | Some (Dir es') \<Rightarrow> lookup es' ns
           | _ \<Rightarrow> None))"

subsection \<open>JSON values and the property reads the scanner performs\<close>

datatype json =
    JNull
  | JBool bool
  | JNum rat
  | JStr string
  | JArr "json list"
  | JObj "(string \<times> json) list"

text \<open>
  What a scan reads: the tree under \<^verbatim>\<open>projectPath\<close>, and the runtime's \<^verbatim>\<open>JSON.parse\<close>
  (\<open>None\<close> when it throws a \<^verbatim>\<open>SyntaxError\<close>).
\<close>

record world =
  tree :: entries
  JSON_parse :: "string \<Rightarrow> json option"

text \<open>
  Exceptions. \<open>TypeError p\<close> is the error of reading property \<open>p\<close> of \<^verbatim>\<open>null\<close>;
  \<open>Error m\<close> is \<^verbatim>\<open>new Error(m)\<close>.
\<close>

datatype error = TypeError string | Error string

definition message :: "error \<Rightarrow> string" where
  "message e =
     (case e of
        TypeError p \<Rightarrow> ''Cannot read properties of null (reading '' @ [CHR 0x27] @ p @ [CHR 0x27] @ '')''
      | Error m \<Rightarrow> m)"

definition bind :: "error + 'a \<Rightarrow> ('a \<Rightarrow> error + 'b) \<Rightarrow> error + 'b" where
  "bind r f = (case r of Inl e \<Rightarrow> Inl e | Inr x \<Rightarrow> f x)"

text \<open>
  \<^verbatim>\<open>v.p\<close> for the property names the scanner reads (\<^verbatim>\<open>dependencies\<close>,
  \<^verbatim>\<open>devDependencies\<close>, \<^verbatim>\<open>scripts\<close>, \<^verbatim>\<open>build\<close>, \<^verbatim>\<open>start\<close>): \<open>None\<close> is
  \<^verbatim>\<open>undefined\<close>. Only \<^verbatim>\<open>null\<close> throws; strings, numbers, booleans and arrays have
  no such property.
\<close>

definition get_prop :: "json \<Rightarrow> string \<Rightarrow> error + json option" where
  "get_prop v p =
     (case v of
        JNull \<Rightarrow> Inl (TypeError p)
      | JObj kvs \<Rightarrow> Inr (map_of kvs p)
      | _ \<Rightarrow> Inr None)"

text \<open>Truthiness of a value read from a parsed document.\<close>

definition truthy :: "json option \<Rightarrow> bool" where
  "truthy v =
     (case v of
        None \<Rightarrow> False
      | Some JNull \<Rightarrow> False
      | Some (JBool b) \<Rightarrow> b
      | Some (JNum n) \<Rightarrow> n \<noteq> 0
      | Some (JStr s) \<Rightarrow> s \<noteq> []
      | Some (JArr xs) \<Rightarrow> True
      | Some (JObj kvs) \<Rightarrow> True)"

text \<open>
  \<^verbatim>\<open>Object.keys(v || {})\<close>: the own enumerable keys of a truthy value (member names of an
  object, indices of an array or a string, nothing for a number or \<^verbatim>\<open>true\<close>), and no
  key for a falsy one.
\<close>

definition keys_or_empty :: "json option \<Rightarrow> string list" where
  "keys_or_empty v =
     (if \<not> truthy v then []
      else case v of
        Some (JObj kvs) \<Rightarrow> remdups (map fst kvs)
      | Some (JArr xs) \<Rightarrow> map show_nat [0..<length xs]
      | Some (JStr s) \<Rightarrow> map show_nat [0..<length s]
      | _ \<Rightarrow> [])"

text \<open>
  \<^verbatim>\<open>Object.keys({...(pj.dependencies || {}), ...(pj.devDependencies || {})})\<close>. The callers
  only test membership, so the order of the merged keys is not observed.
\<close>

definition allDeps :: "json \<Rightarrow> error + string list" where
  "allDeps pj =
     bind (get_prop pj ''dependencies'') (\<lambda>d.
     bind (get_prop pj ''devDependencies'') (\<lambda>dv.
       Inr (remdups (keys_or_empty d @ keys_or_empty dv))))"

subsection \<open>Helper methods of \<^verbatim>\<open>ProjectScanner\<close>\<close>

definition fileExists :: "world \<Rightarrow> path \<Rightarrow> bool" where
  "fileExists w p = (lookup (tree w) p \<noteq> None)"

text \<open>\<^verbatim>\<open>readFile\<close>: the content, or the empty string when the read throws.\<close>

definition readFile :: "world \<Rightarrow> path \<Rightarrow> string" where
  "readFile w p = (case lookup (tree w) p of Some (File sz c) \<Rightarrow> c | _ \<Rightarrow> [])"

text \<open>\<^verbatim>\<open>readJsonFile\<close>: the parsed content, or the empty object when parsing throws.\<close>

definition readJsonFile :: "world \<Rightarrow> path \<Rightarrow> json" where
  "readJsonFile w p = (case JSON_parse w (readFile w p) of None \<Rightarrow> JObj [] | Some v \<Rightarrow> v)"

text \<open>
  \<^verbatim>\<open>searchDir\<close> inside \<^verbatim>\<open>searchInFiles\<close>: \<open>dir\<close> is the path of the directory being
  listed, relative to \<^verbatim>\<open>projectPath\<close>. The listing is taken with \<^verbatim>\<open>withFileTypes\<close>, so
  an entry that is a link answers neither \<^verbatim>\<open>isDirectory()\<close> nor \<^verbatim>\<open>isFile()\<close> and is
  passed over.
\<close>

function searchDir :: "string list \<Rightarrow> string list \<Rightarrow> path \<Rightarrow> entries \<Rightarrow> path list" where
  "searchDir exts pats dir [] = []"
| "searchDir exts pats dir ((n, Dir es) # rest) =
     (if \<not> startsWith n ''.'' \<and> n \<noteq> ''node_modules''
      then searchDir exts pats (dir @ [n]) es else [])
     @ searchDir exts pats dir rest"
| "searchDir exts pats dir ((n, File sz c) # rest) =
     (if extname n \<in> set exts \<and> (pats = [] \<or> list_ex (\<lambda>p. str_includes n p) pats)
      then [dir @ [n]] else [])
     @ searchDir exts pats dir rest"
| "searchDir exts pats dir ((n, Link t) # rest) = searchDir exts pats dir rest"
| "searchDir exts pats dir ((n, BrokenLink m) # rest) = searchDir exts pats dir rest"
  by pat_completeness auto
termination
  by (relation "measure (\<lambda>(exts, pats, dir, es). size_list (size_prod (\<lambda>_. 0) size) es)") auto

definition searchInFiles :: "world \<Rightarrow> string list \<Rightarrow> string list \<Rightarrow> path list" where
  "searchInFiles w exts pats = searchDir exts pats [] (tree w)"

definition getAllFiles :: "world \<Rightarrow> string list \<Rightarrow> path list" where
  "getAllFiles w exts = searchInFiles w exts []"

definition searchInContent :: "world \<Rightarrow> string \<Rightarrow> bool" where
  "searchInContent w term =
     list_ex (\<lambda>f. str_includes (toLowerCase (readFile w f)) (toLowerCase term))
       (take 50 (getAllFiles w [''.js'', ''.ts'', ''.jsx'', ''.tsx'', ''.py'', ''.html'', ''.json'']))"

subsection \<open>Stack detection\<close>

record StackDetection =
  technologies :: "string list"
  hasPackageJson :: bool
  hasDockerfile :: bool
  hasTypeScript :: bool
  framework :: string
  buildTool :: string

text \<open>\<^verbatim>\<open>if (c) detectedTech.push(x)\<close>.\<close>

definition push_if :: "bool \<Rightarrow> 'a \<Rightarrow> 'a list" where
  "push_if c x = (if c then [x] else [])"

text \<open>\<^verbatim>\<open>pj.scripts && pj.scripts.k\<close>, as a condition.\<close>

definition has_script :: "json \<Rightarrow> string \<Rightarrow> error + bool" where
  "has_script pj k =
     bind (get_prop pj ''scripts'') (\<lambda>s.
       case s of
         None \<Rightarrow> Inr False
       | Some sv \<Rightarrow> if truthy s then bind (get_prop sv k) (\<lambda>b. Inr (truthy b)) else Inr False)"

definition detectFramework :: "world \<Rightarrow> error + string" where
  "detectFramework w =
     (if fileExists w [''package.json''] then
        bind (get_prop (readJsonFile w [''package.json'']) ''dependencies'') (\<lambda>d.
          let deps = keys_or_empty d in
          if ''next'' \<in> set deps then Inr ''Next.js''
          else if ''react'' \<in> set deps then Inr ''React''
          else if ''vue'' \<in> set deps then Inr ''Vue.js''
          else if ''svelte'' \<in> set deps then Inr ''Svelte''
          else Inr ''None'')
      else Inr ''None'')"

definition detectBuildTool :: "world \<Rightarrow> error + string" where
  "detectBuildTool w =
     (if fileExists w [''package.json''] then
        (let pj = readJsonFile w [''package.json''] in
         bind (allDeps pj) (\<lambda>deps.
           if ''vite'' \<in> set deps then Inr ''Vite''
           else if ''webpack'' \<in> set deps then Inr ''Webpack''
           else bind (has_script pj ''build'') (\<lambda>b.
             if b then Inr ''npm scripts'' else Inr ''None'')))
      else Inr ''None'')"

text \<open>The technologies pushed inside \<^verbatim>\<open>if (packageJson.dependencies) { ... }\<close>.\<close>

definition node_technologies :: "world \<Rightarrow> string list \<Rightarrow> string list" where
  "node_technologies w deps =
     push_if (''next'' \<in> set deps) ''Next.js''
     @ push_if (''react'' \<in> set deps) ''React''
     @ push_if (''vue'' \<in> set deps) ''Vue.js''
     @ push_if (''svelte'' \<in> set deps) ''Svelte''
     @ push_if (''express'' \<in> set deps) ''Express''
     @ push_if (''fastify'' \<in> set deps) ''Fastify''
     @ push_if (''vite'' \<in> set deps) ''Vite''
     @ push_if (''webpack'' \<in> set deps) ''Webpack''
     @ push_if (''tailwindcss'' \<in> set deps) ''Tailwind CSS''
     @ push_if (''typescript'' \<in> set deps \<or> fileExists w [''tsconfig.json'']) ''TypeScript''"

definition python_technologies :: "world \<Rightarrow> string list" where
  "python_technologies w =
     (if fileExists w [''requirements.txt''] \<or> fileExists w [''pyproject.toml''] then
        (let requirementsContent =
               (if fileExists w [''requirements.txt''] then readFile w [''requirements.txt''] else [])
         in [''Python'']
            @ push_if (str_includes requirementsContent ''django'') ''Django''
            @ push_if (str_includes requirementsContent ''flask'') ''Flask''
            @ push_if (str_includes requirementsContent ''fastapi'') ''FastAPI'')
      else [])"

definition detectStack :: "world \<Rightarrow> error + StackDetection" where
  "detectStack w =
     bind
       (if fileExists w [''package.json''] then
          (let pj = readJsonFile w [''package.json''] in
           bind (get_prop pj ''dependencies'') (\<lambda>d.
             if truthy d then
               bind (get_prop pj ''devDependencies'') (\<lambda>dv.
                 Inr ([''Node.js''] @ node_technologies w (keys_or_empty d @ keys_or_empty dv)))
             else Inr [''Node.js'']))
        else Inr [])
       (\<lambda>t1.
          let t2 = t1 @ python_technologies w;
              t3 = t2 @ push_if (fileExists w [''Dockerfile''] \<or> fileExists w [''docker-compose.yml''])
                          ''Docker'';
              detectedTech =
                t3 @ push_if (fileExists w [''index.html''] \<and> ''React'' \<notin> set t3 \<and> ''Vue.js'' \<notin> set t3)
                       ''Static HTML''
          in bind (detectFramework w) (\<lambda>fw.
             bind (detectBuildTool w) (\<lambda>bt.
               Inr \<lparr> technologies = detectedTech,
                     hasPackageJson = fileExists w [''package.json''],
                     hasDockerfile = fileExists w [''Dockerfile''],
                     hasTypeScript =
                       (fileExists w [''tsconfig.json''] \<or> searchInFiles w [''.ts'', ''.tsx''] [] \<noteq> []),
                     framework = fw,
                     buildTool = bt \<rparr>)))"

subsection \<open>Category scorers\<close>

record category =
  name :: string
  score :: int
  status :: string
  findings :: "string list"
  suggestion :: string
  fixAvailable :: bool

text \<open>
  The running \<^verbatim>\<open>score\<close> and \<^verbatim>\<open>findings\<close> of a scorer.
  \<open>award c n f\<close> is \<^verbatim>\<open>if (c) { score += n; findings.push(f) }\<close> and
  \<open>remark c f\<close> is \<^verbatim>\<open>if (c) findings.push(f)\<close>.
\<close>

type_synonym tally = "int \<times> string list"

definition award :: "bool \<Rightarrow> int \<Rightarrow> string \<Rightarrow> tally \<Rightarrow> tally" where
  "award c n f t = (if c then (fst t + n, snd t @ [f]) else t)"

definition remark :: "bool \<Rightarrow> string \<Rightarrow> tally \<Rightarrow> tally" where
  "remark c f t = (if c then (fst t, snd t @ [f]) else t)"

text \<open>\<^verbatim>\<open>if (score >= p) status = 'pass'; else if (score >= q) status = 'warning';\<close> from \<^verbatim>\<open>'critical'\<close>.\<close>

definition grade :: "int \<Rightarrow> int \<Rightarrow> int \<Rightarrow> string" where
  "grade p q s = (if s \<ge> p then ''pass'' else if s \<ge> q then ''warning'' else ''critical'')"

text \<open>
  The object that the Frontend, Backend, Authentication, Database and Deployment scorers
  push: the score capped by \<^verbatim>\<open>Math.min(score, 100)\<close>, the status from the thresholds
  70 and \<open>q\<close>, and the suggestion and \<^verbatim>\<open>fixAvailable\<close> from \<^verbatim>\<open>score < 70\<close>.
\<close>

definition category_of :: "string \<Rightarrow> int \<Rightarrow> string \<Rightarrow> string \<Rightarrow> tally \<Rightarrow> category" where
  "category_of nm q advice praise t =
     \<lparr> name = nm, score = min (fst t) 100, status = grade 70 q (fst t), findings = snd t,
       suggestion = (if fst t < 70 then advice else praise), fixAvailable = (fst t < 70) \<rparr>"

text \<open>\<^verbatim>\<open>scoreFrontend\<close>: the checks, then the push.\<close>

definition frontend_checks :: "StackDetection \<Rightarrow> world \<Rightarrow> error + tally" where
  "frontend_checks sd w =
     (let t1 = (if framework sd \<noteq> ''None''
                then award True 40 (framework sd @ '' framework detected'') (0, [])
                else if fileExists w [''index.html'']
                then award True 20 ''Static HTML frontend detected'' (0, [])
                else remark True ''No frontend files detected'' (0, []));
          t2 = award (buildTool sd \<noteq> ''None'') 30 (''Build tool configured: '' @ buildTool sd) t1
      in bind
           (if fileExists w [''package.json''] then
              bind (allDeps (readJsonFile w [''package.json''])) (\<lambda>deps.
                Inr (award (''tailwindcss'' \<in> set deps \<or> searchInFiles w [''.css''] [] \<noteq> []) 20
                       ''Styling framework/CSS detected'' t2))
            else Inr t2)
           (\<lambda>t3.
              Inr (award (searchInContent w ''viewport'' \<or> searchInContent w ''responsive''
                          \<or> searchInContent w ''@media'')
                     10 ''Responsive design patterns found'' t3)))"

definition scoreFrontend :: "StackDetection \<Rightarrow> world \<Rightarrow> error + category" where
  "scoreFrontend sd w =
     bind (frontend_checks sd w) (\<lambda>t.
       Inr (category_of ''Frontend'' 40
              ''Add a modern frontend framework like React or Vue.js with proper build configuration''
              ''Frontend looks good'' t))"

definition backend_checks :: "world \<Rightarrow> tally" where
  "backend_checks w =
     (let t1 = award (searchInFiles w [''.js'', ''.ts'', ''.py''] [''server'', ''app'', ''main'', ''index''] \<noteq> [])
                 30 ''Backend entry points detected'' (0, []);
          t2 = (if searchInContent w ''express()'' \<or> searchInContent w ''app.listen''
                   \<or> searchInContent w ''fastify()''
                then award True 40 ''Node.js server framework detected'' t1
                else award (searchInContent w ''Flask'' \<or> searchInContent w ''Django''
                            \<or> searchInContent w ''FastAPI'')
                       40 ''Python web framework detected'' t1);
          t3 = (if searchInContent w ''/api/'' \<or> searchInContent w ''app.get''
                   \<or> searchInContent w ''app.post'' \<or> searchInContent w ''@app.route''
                then award True 30 ''API routes detected'' t2
                else remark True ''No API routes found'' t2)
      in remark (fst t3 = 0) ''No backend detected'' t3)"

definition scoreBackend :: "world \<Rightarrow> category" where
  "scoreBackend w =
     category_of ''Backend'' 30
       ''Add a backend server with API endpoints using Express.js or similar''
       ''Backend implementation looks good'' (backend_checks w)"

definition authLibs :: "string list" where
  "authLibs = [''@clerk/nextjs'', ''@clerk/react'', ''@auth0/auth0-react'', ''next-auth'', ''firebase'',
               ''@supabase/auth-helpers'', ''passport'', ''jsonwebtoken'', ''bcrypt'']"

definition authentication_checks :: "world \<Rightarrow> error + tally" where
  "authentication_checks w =
     bind
       (if fileExists w [''package.json''] then
          bind (allDeps (readJsonFile w [''package.json''])) (\<lambda>deps.
            let detectedAuth = filter (\<lambda>lib. lib \<in> set deps) authLibs in
            Inr (award (detectedAuth \<noteq> []) 60
                   (''Authentication library detected: '' @ join '', '' detectedAuth) (0, [])))
        else Inr (0, []))
       (\<lambda>t1.
          let t2 = award (searchInContent w ''login'' \<and> searchInContent w ''password'')
                     20 ''Login functionality detected'' t1;
              t3 = award (searchInContent w ''jwt'' \<or> searchInContent w ''token''
                          \<or> searchInContent w ''session'')
                     20 ''Token/session management detected'' t2
          in Inr (remark (fst t3 = 0) ''No authentication system detected'' t3))"

definition scoreAuthentication :: "world \<Rightarrow> error + category" where
  "scoreAuthentication w =
     bind (authentication_checks w) (\<lambda>t.
       Inr (category_of ''Authentication'' 40
              ''Add authentication with Clerk, Auth0, or NextAuth.js''
              ''Authentication system in place'' t))"

definition orms :: "string list" where
  "orms = [''prisma'', ''@prisma/client'', ''drizzle-orm'', ''mongoose'', ''typeorm'', ''sequelize'']"

definition dbClients :: "string list" where
  "dbClients = [''@supabase/supabase-js'', ''firebase'', ''mongodb'', ''mysql2'', ''pg'', ''sqlite3'',
                ''better-sqlite3'']"

definition database_checks :: "world \<Rightarrow> error + tally" where
  "database_checks w =
     bind
       (if fileExists w [''package.json''] then
          bind (allDeps (readJsonFile w [''package.json''])) (\<lambda>deps.
            let detectedOrm = filter (\<lambda>orm. orm \<in> set deps) orms;
                t1 = award (detectedOrm \<noteq> []) 50 (''ORM detected: '' @ join '', '' detectedOrm) (0, []);
                detectedDb = filter (\<lambda>client. client \<in> set deps) dbClients
            in Inr (award (detectedDb \<noteq> []) 30
                      (''Database client detected: '' @ join '', '' detectedDb) t1))
        else Inr (0, []))
       (\<lambda>t2.
          let t3 = award (fileExists w [''prisma'', ''schema.prisma''] \<or> fileExists w [''drizzle.config.js'']
                          \<or> searchInFiles w [''.sql''] [] \<noteq> [])
                     20 ''Database schema files detected'' t2
          in Inr (remark (fst t3 = 0) ''No database integration detected'' t3))"

definition scoreDatabase :: "world \<Rightarrow> error + category" where
  "scoreDatabase w =
     bind (database_checks w) (\<lambda>t.
       Inr (category_of ''Database'' 30
              ''Add database integration with Prisma, Supabase, or similar''
              ''Database integration looks good'' t))"

definition payments_checks :: "world \<Rightarrow> error + tally" where
  "payments_checks w =
     bind
       (if fileExists w [''package.json''] then
          bind (allDeps (readJsonFile w [''package.json''])) (\<lambda>deps.
            if ''stripe'' \<in> set deps \<or> ''@stripe/stripe-js'' \<in> set deps
            then Inr (100, [''Stripe payment integration detected''])
            else if ''@paddle/paddle-js'' \<in> set deps
            then Inr (100, [''Paddle payment integration detected''])
            else if ''@lemon-squeezy/lemon-squeezy-js'' \<in> set deps
            then Inr (100, [''Lemon Squeezy payment integration detected''])
            else Inr (0, []))
        else Inr (0, []))
       (\<lambda>t1. Inr (remark (fst t1 = 0) ''No payment system detected'' t1))"

definition scorePayments :: "world \<Rightarrow> error + category" where
  "scorePayments w =
     bind (payments_checks w) (\<lambda>t.
       let s = fst t in
       Inr \<lparr> name = ''Payments'', score = s,
             status = (if s = 0 then ''warning'' else ''pass''),
             findings = snd t,
             suggestion =
               (if s = 0 then ''Consider adding payment processing with Stripe for monetization''
                else ''Payment system integrated''),
             fixAvailable = (s = 0) \<rparr>)"

subsection \<open>The key-shaped literals of the Security scorer\<close>

text \<open>
  Each entry of \<^verbatim>\<open>apiKeyPatterns\<close> is a literal prefix followed by a repetition of one
  character class: \<^verbatim>\<open>/sk_[a-zA-Z0-9]{24,}/g\<close>, \<^verbatim>\<open>/pk_[a-zA-Z0-9]{24,}/g\<close>,
  \<^verbatim>\<open>/ghp_[a-zA-Z0-9]{36}/g\<close>, \<^verbatim>\<open>/AKIA[A-Z0-9]{16}/g\<close> and \<^verbatim>\<open>/[a-zA-Z0-9]{32,}/g\<close>.
  The patterns are global, so each regular expression object keeps its \<^verbatim>\<open>lastIndex\<close>
  from one \<^verbatim>\<open>test\<close> to the next, also across files.
\<close>

record regex =
  literal :: string
  char_class :: string
  at_least :: nat
  at_most :: "nat option"
  lastIndex :: nat

definition alnum :: string where
  "alnum = ''abcdefghijklmnopqrstuvwxyzABCDEFGHIJKLMNOPQRSTUVWXYZ0123456789''"

definition apiKeyPatterns :: "regex list" where
  "apiKeyPatterns =
     [\<lparr> literal = ''sk_'', char_class = alnum, at_least = 24, at_most = None, lastIndex = 0 \<rparr>,
      \<lparr> literal = ''pk_'', char_class = alnum, at_least = 24, at_most = None, lastIndex = 0 \<rparr>,
      \<lparr> literal = ''ghp_'', char_class = alnum, at_least = 36, at_most = Some 36, lastIndex = 0 \<rparr>,
      \<lparr> literal = ''AKIA'', char_class = ''ABCDEFGHIJKLMNOPQRSTUVWXYZ0123456789'',
        at_least = 16, at_most = Some 16, lastIndex = 0 \<rparr>,
      \<lparr> literal = [], char_class = alnum, at_least = 32, at_most = None, lastIndex = 0 \<rparr>]"

text \<open>The length of the (greedy) match that starts at the head of \<open>s\<close>, if there is one.\<close>

definition match_here :: "regex \<Rightarrow> string \<Rightarrow> nat option" where
  "match_here r s =
     (if startsWith s (literal r) then
        (let run = length (takeWhile (\<lambda>c. c \<in> set (char_class r)) (drop (length (literal r)) s)) in
         if run \<ge> at_least r
         then Some (length (literal r) + (case at_most r of None \<Rightarrow> run | Some m \<Rightarrow> min m run))
         else None)
      else None)"

text \<open>The end index of the leftmost match in \<open>s\<close>, whose first code unit has index \<open>i\<close>.\<close>

fun search_from :: "regex \<Rightarrow> string \<Rightarrow> nat \<Rightarrow> nat option" where
  "search_from r [] i = (case match_here r [] of Some n \<Rightarrow> Some (i + n) | None \<Rightarrow> None)"
| "search_from r (c # cs) i =
     (case match_here r (c # cs) of Some n \<Rightarrow> Some (i + n) | None \<Rightarrow> search_from r cs (Suc i))"

text \<open>\<^verbatim>\<open>pattern.test(content)\<close>: the result and the regular expression object afterwards.\<close>

definition regex_test :: "regex \<Rightarrow> string \<Rightarrow> bool \<times> regex" where
  "regex_test r s =
     (if lastIndex r > length s then (False, r\<lparr>lastIndex := 0\<rparr>)
      else case search_from r (drop (lastIndex r) s) (lastIndex r) of
             Some e \<Rightarrow> (True, r\<lparr>lastIndex := e\<rparr>)
           | None \<Rightarrow> (False, r\<lparr>lastIndex := 0\<rparr>))"

subsection \<open>The Security and Deployment scorers\<close>

text \<open>The running \<^verbatim>\<open>score\<close>, \<^verbatim>\<open>findings\<close> and \<^verbatim>\<open>status\<close> of \<^verbatim>\<open>scoreSecurity\<close>.\<close>

type_synonym sec = "int \<times> string list \<times> string"

text \<open>The inner loop \<^verbatim>\<open>for (const pattern of apiKeyPatterns)\<close> on one file.\<close>

fun test_patterns :: "regex list \<Rightarrow> string \<Rightarrow> string \<Rightarrow> sec \<Rightarrow> regex list \<times> sec" where
  "test_patterns [] content file st = ([], st)"
| "test_patterns (r # rs) content file (sc, fs, stat) =
     (let (hit, r') = regex_test r content;
          st' = (if hit \<and> \<not> str_includes file ''.env.example''
                 then (sc - 30, fs @ [''Potential hardcoded API key found in '' @ file], ''critical'')
                 else (sc, fs, stat));
          (rs', st'') = test_patterns rs content file st'
      in (r' # rs', st''))"

text \<open>The outer loop \<^verbatim>\<open>for (const file of allFiles)\<close>.\<close>

fun scan_files :: "world \<Rightarrow> path list \<Rightarrow> regex list \<Rightarrow> sec \<Rightarrow> sec" where
  "scan_files w [] rs st = st"
| "scan_files w (f # fs) rs st =
     (let (rs', st') = test_patterns rs (readFile w f) (path_str f) st in scan_files w fs rs' st')"

text \<open>\<^verbatim>\<open>status = status === 'pass' ? 'warning' : status\<close>.\<close>

definition demote :: "string \<Rightarrow> string" where
  "demote stat = (if stat = ''pass'' then ''warning'' else stat)"

text \<open>The check for committed \<^verbatim>\<open>.env\<close> files.\<close>

definition dotenv_check :: "world \<Rightarrow> sec \<Rightarrow> sec" where
  "dotenv_check w st =
     (case st of (sc, fs, stat) \<Rightarrow>
        if fileExists w [''.env''] \<or> fileExists w [''.env.local''] \<or> fileExists w [''.env.production'']
        then (sc - 50, fs @ [''CRITICAL: .env file committed to repository''], ''critical'')
        else (sc, fs, stat))"

text \<open>The check for \<^verbatim>\<open>.gitignore\<close>.\<close>

definition gitignore_check :: "world \<Rightarrow> sec \<Rightarrow> sec" where
  "gitignore_check w st =
     (case st of (sc, fs, stat) \<Rightarrow>
        if \<not> fileExists w [''.gitignore'']
        then (sc - 20, fs @ [''No .gitignore file found''], demote stat)
        else (let gitignoreContent = readFile w [''.gitignore''] in
              if \<not> str_includes gitignoreContent ''.env'' \<and> \<not> str_includes gitignoreContent ''*.env''
              then (sc - 15, fs @ [''.env files not ignored in .gitignore''], demote stat)
              else (sc, fs, stat)))"

text \<open>The check for security middleware: \<^verbatim>\<open>score += 0\<close> and a finding.\<close>

definition middleware_check :: "world \<Rightarrow> sec \<Rightarrow> sec" where
  "middleware_check w st =
     (case st of (sc, fs, stat) \<Rightarrow>
        if searchInContent w ''cors'' \<or> searchInContent w ''helmet''
        then (sc + 0, fs @ [''Security middleware (CORS/Helmet) detected''], stat)
        else (sc, fs, stat))"

definition security_checks :: "world \<Rightarrow> sec" where
  "security_checks w =
     middleware_check w
       (gitignore_check w
          (scan_files w (getAllFiles w [''.js'', ''.ts'', ''.jsx'', ''.tsx'', ''.py'', ''.env.example''])
             apiKeyPatterns
             (dotenv_check w (100, [], ''pass''))))"

definition scoreSecurity :: "world \<Rightarrow> category" where
  "scoreSecurity w =
     (case security_checks w of (sc, fs, stat) \<Rightarrow>
        let s = max 0 sc;
            stat' = (if s \<ge> 80 \<and> stat \<noteq> ''critical'' then ''pass''
                     else if s \<ge> 50 \<and> stat \<noteq> ''critical'' then ''warning''
                     else stat)
        in \<lparr> name = ''Security'', score = s, status = stat', findings = fs,
              suggestion =
                (if s < 80
                 then ''Review security practices: avoid committing secrets, add .gitignore, use environment variables''
                 else ''Security practices look good''),
              fixAvailable = (s < 80) \<rparr>)"

definition deployment_checks :: "world \<Rightarrow> error + tally" where
  "deployment_checks w =
     bind
       (if fileExists w [''package.json''] then
          (let pj = readJsonFile w [''package.json''] in
           bind (has_script pj ''build'') (\<lambda>b.
           bind (has_script pj ''start'') (\<lambda>st.
             Inr (award (searchInContent w ''process.env.PORT'') 20
                    ''PORT environment variable handling detected''
                    (award st 25 ''Start script configured''
                       (award b 25 ''Build script configured'' (0, [])))))))
        else Inr (0, []))
       (\<lambda>t1.
          let t2 = award (fileExists w [''Dockerfile'']) 30 ''Dockerfile present'' t1;
              t3 = remark (fileExists w [''vercel.json''] \<or> fileExists w [''netlify.toml'']
                           \<or> fileExists w [''.railway.json''])
                     ''Deployment configuration file detected'' t2
          in Inr (remark (fst t3 = 0) ''No deployment configuration detected'' t3))"

definition scoreDeploymentReady :: "world \<Rightarrow> error + category" where
  "scoreDeploymentReady w =
     bind (deployment_checks w) (\<lambda>t.
       Inr (category_of ''Deployment Ready'' 40
              ''Add build/start scripts and environment variable handling for deployment''
              ''Ready for deployment'' t))"

subsection \<open>Double-precision arithmetic of the weighted sum\<close>

text \<open>
  A JavaScript number is an IEEE 754 double. A finite double is a rational number, and
  every arithmetic operation returns the double nearest to the exact result, ties going
  to the even significand. \<open>fl\<close> is that rounding for magnitudes in the normal range
  (from \<open>2\<^sup>-\<^sup>1\<^sup>0\<^sup>2\<^sup>2\<close> up to the overflow threshold), which is where the scores and
  their weighted sums live. \<open>binade x\<close> is the exponent \<open>e\<close> with \<open>2\<^sup>e \<le> x < 2\<^sup>e\<^sup>+\<^sup>1\<close>.
\<close>

definition binade :: "rat \<Rightarrow> int" where
  "binade x =
     (if x \<ge> 1 then int (floorlog 2 (nat \<lfloor>x\<rfloor>)) - 1
      else - int (floorlog 2 (nat (\<lceil>1 / x\<rceil> - 1))))"

definition round_even :: "rat \<Rightarrow> int" where
  "round_even y =
     (let f = \<lfloor>y\<rfloor>; r = y - of_int f in
      if r < 1 / 2 then f else if r > 1 / 2 then f + 1 else if even f then f else f + 1)"

definition fl :: "rat \<Rightarrow> rat" where
  "fl x =
     (if x = 0 then 0
      else let u = 2 powi (binade \<bar>x\<bar> - 52) in sgn x * of_int (round_even (\<bar>x\<bar> / u)) * u)"

text \<open>\<^verbatim>\<open>Math.round\<close>: the nearest integer, a tie going up.\<close>

definition Math_round :: "rat \<Rightarrow> int" where
  "Math_round x = \<lfloor>x + 1 / 2\<rfloor>"

subsection \<open>The Ship Score and the scan\<close>

text \<open>
  What a read \<^verbatim>\<open>weights[n]\<close> of the table \<^verbatim>\<open>weights\<close> gives: the number of an own
  property, \<^verbatim>\<open>undefined\<close>, or, for a name that every object inherits from
  \<^verbatim>\<open>Object.prototype\<close>, the inherited member (a function, or an object for \<^verbatim>\<open>__proto__\<close>).
\<close>

datatype member = Undefined | Double rat | Inherited

definition Object_prototype :: "string list" where
  "Object_prototype =
     [''constructor'', ''__defineGetter__'', ''__defineSetter__'', ''hasOwnProperty'',
      ''__lookupGetter__'', ''__lookupSetter__'', ''isPrototypeOf'', ''propertyIsEnumerable'',
      ''toString'', ''valueOf'', ''__proto__'', ''toLocaleString'']"

text \<open>The table \<^verbatim>\<open>weights\<close>; each decimal literal denotes the nearest double.\<close>

definition weights :: "string \<Rightarrow> member" where
  "weights n =
     (case map_of [(''Frontend'', fl (20 / 100)), (''Backend'', fl (15 / 100)),
                   (''Authentication'', fl (15 / 100)), (''Database'', fl (15 / 100)),
                   (''Payments'', fl (10 / 100)), (''Security'', fl (10 / 100)),
                   (''Deployment Ready'', fl (15 / 100))] n of
        Some x \<Rightarrow> Double x
      | None \<Rightarrow> if n \<in> set Object_prototype then Inherited else Undefined)"

text \<open>
  \<^verbatim>\<open>category.score * (weights[category.name] || 0)\<close>. \<open>None\<close> is \<^verbatim>\<open>NaN\<close>: an inherited
  member is truthy, so it is the operand itself, and it converts to no number.
\<close>

definition weighted_score :: "int \<Rightarrow> string \<Rightarrow> rat option" where
  "weighted_score s n =
     (case weights n of
        Undefined \<Rightarrow> Some (fl (of_int s * 0))
      | Double x \<Rightarrow> Some (fl (of_int s * (if x \<noteq> 0 then x else 0)))
      | Inherited \<Rightarrow> None)"

text \<open>The loop \<^verbatim>\<open>totalScore += category.score * (weights[category.name] || 0)\<close>; a sum
  with \<^verbatim>\<open>NaN\<close> is \<^verbatim>\<open>NaN\<close>.\<close>

fun add_scores :: "rat option \<Rightarrow> category list \<Rightarrow> rat option" where
  "add_scores totalScore [] = totalScore"
| "add_scores totalScore (c # cs) =
     add_scores
       (case (totalScore, weighted_score (score c) (name c)) of
          (Some t, Some p) \<Rightarrow> Some (fl (t + p))
        | _ \<Rightarrow> None) cs"

text \<open>\<^verbatim>\<open>calculateShipScore\<close>; \<open>None\<close> is \<^verbatim>\<open>NaN\<close>, which \<^verbatim>\<open>Math.round\<close> returns as it is.\<close>

definition calculateShipScore :: "category list \<Rightarrow> int option" where
  "calculateShipScore cs = map_option Math_round (add_scores (Some 0) cs)"

record report =
  shipScore :: "int option"
  stackDetection :: StackDetection
  categories :: "category list"

text \<open>
  \<^verbatim>\<open>scan\<close>: stack detection, the seven scorers in their fixed order, the Ship Score.
  Whatever is thrown on the way is rethrown as \<^verbatim>\<open>Error('Scan failed: ' + message)\<close>.
\<close>

definition scan_body :: "world \<Rightarrow> error + report" where
  "scan_body w =
     bind (detectStack w) (\<lambda>sd.
     bind (scoreFrontend sd w) (\<lambda>c1.
     bind (Inr (scoreBackend w)) (\<lambda>c2.
     bind (scoreAuthentication w) (\<lambda>c3.
     bind (scoreDatabase w) (\<lambda>c4.
     bind (scorePayments w) (\<lambda>c5.
     bind (Inr (scoreSecurity w)) (\<lambda>c6.
     bind (scoreDeploymentReady w) (\<lambda>c7.
       let cats = [c1, c2, c3, c4, c5, c6, c7] in
       Inr \<lparr> shipScore = calculateShipScore cats, stackDetection = sd, categories = cats \<rparr>))))))))"

definition scan :: "world \<Rightarrow> error + report" where
  "scan w =
     (case scan_body w of
        Inl e \<Rightarrow> Inl (Error (''Scan failed: '' @ message e))
      | Inr r \<Rightarrow> Inr r)"

section \<open>The server: admission, validation, fetch and cleanup\<close>

subsection \<open>Rate limiting\<close>

text \<open>
  \<^verbatim>\<open>rateLimiter\<close> is a map from the client address to the timestamps (milliseconds, as
  \<^verbatim>\<open>Date.now()\<close> gives them) of its admitted requests. The middleware either calls
  \<^verbatim>\<open>next()\<close> or answers with a status, an error text and \<^verbatim>\<open>retryAfter\<close>.
\<close>

type_synonym limiter = "string \<Rightarrow> int list option"

datatype admission = Admitted | Rejected nat string nat

definition windowMs :: int where
  "windowMs = 60 * 60 * 1000"

definition maxRequests :: nat where
  "maxRequests = 10"

text \<open>\<^verbatim>\<open>Math.ceil(windowMs / 1000)\<close>; the quotient is a whole number.\<close>

definition retryAfter :: nat where
  "retryAfter = nat (windowMs div 1000)"

definition rateLimit :: "string \<Rightarrow> int \<Rightarrow> limiter \<Rightarrow> admission \<times> limiter" where
  "rateLimit clientIP now rl =
     (let rl1 = (if rl clientIP = None then rl(clientIP \<mapsto> []) else rl);
          requests = (case rl1 clientIP of None \<Rightarrow> [] | Some ts \<Rightarrow> ts);
          recentRequests = filter (\<lambda>timestamp. now - timestamp < windowMs) requests
      in if length recentRequests \<ge> maxRequests
         then (Rejected 429 ''Rate limit exceeded. Try again later.'' retryAfter, rl1)
         else (Admitted, rl1(clientIP \<mapsto> recentRequests @ [now])))"

text \<open>
  A sequence of requests, each with its client and its time, served from the empty
  limiter the server starts with: the limiter afterwards, and the admitted requests in
  order.
\<close>

definition serve_one :: "limiter \<times> (string \<times> int) list \<Rightarrow> string \<times> int \<Rightarrow> limiter \<times> (string \<times> int) list" where
  "serve_one st call =
     (case rateLimit (fst call) (snd call) (fst st) of
        (Admitted, rl') \<Rightarrow> (rl', snd st @ [call])
      | (Rejected c e r, rl') \<Rightarrow> (rl', snd st))"

definition serve :: "(string \<times> int) list \<Rightarrow> limiter \<times> (string \<times> int) list" where
  "serve calls = foldl serve_one (Map.empty, []) calls"

definition limiter_after :: "(string \<times> int) list \<Rightarrow> limiter" where
  "limiter_after calls = fst (serve calls)"

definition admitted_times :: "string \<Rightarrow> (string \<times> int) list \<Rightarrow> int list" where
  "admitted_times k calls = map snd (filter (\<lambda>c. fst c = k) (snd (serve calls)))"

subsection \<open>Validation of the repository reference\<close>

text \<open>
  \<^verbatim>\<open>/^https:\/\/github\.com\/[a-zA-Z0-9_.-]+\/[a-zA-Z0-9_.-]+\/?$/\<close>. The class excludes the
  slash, so the greedy repetitions never have to give a character back.
\<close>

definition name_chars :: string where
  "name_chars = ''abcdefghijklmnopqrstuvwxyzABCDEFGHIJKLMNOPQRSTUVWXYZ0123456789_.-''"

definition isValidGitHubUrl :: "string \<Rightarrow> bool" where
  "isValidGitHubUrl url =
     (startsWith url ''https://github.com/''
      \<and> (let r1 = drop (length ''https://github.com/'') url;
              owner = takeWhile (\<lambda>c. c \<in> set name_chars) r1;
              r2 = dropWhile (\<lambda>c. c \<in> set name_chars) r1
          in owner \<noteq> []
             \<and> (case r2 of
                   [] \<Rightarrow> False
                 | c # r3 \<Rightarrow>
                     c = CHR ''/''
                     \<and> (let repo = takeWhile (\<lambda>c. c \<in> set name_chars) r3;
                             r4 = dropWhile (\<lambda>c. c \<in> set name_chars) r3
                         in repo \<noteq> [] \<and> (r4 = [] \<or> r4 = ''/'')))))"

subsection \<open>Cloning and the size check\<close>

definition sizeLimit :: nat where
  "sizeLimit = 100 * 1024 * 1024"

text \<open>
  \<^verbatim>\<open>getDirSize\<close>, with the entries it has called \<^verbatim>\<open>fs.statSync\<close> on, in order. \<open>sofar\<close> is
  the local variable \<^verbatim>\<open>size\<close> of the invocation that lists the directory \<open>dir\<close>; the recursive
  call on a subdirectory starts its own at 0. \<^verbatim>\<open>fs.statSync\<close> follows a link, so the entry
  counts as what the link resolves to, and it throws on a link that does not resolve, with
  the system error's text followed by the call and the path.
\<close>

function dir_loop :: "path \<Rightarrow> nat \<Rightarrow> entries \<Rightarrow> path list \<times> (error + nat)" where
  "dir_loop dir sofar [] = ([], Inr sofar)"
| "dir_loop dir sofar ((n, File sz c) # rest) =
     (let sofar' = sofar + sz in
      if sofar' > sizeLimit then ([dir @ [n]], Inl (Error ''Repository too large''))
      else (let (seen, r) = dir_loop dir sofar' rest in ((dir @ [n]) # seen, r)))"
| "dir_loop dir sofar ((n, Dir es) # rest) =
     (case dir_loop (dir @ [n]) 0 es of
        (inner, Inl e) \<Rightarrow> ((dir @ [n]) # inner, Inl e)
      | (inner, Inr s) \<Rightarrow>
          (let sofar' = sofar + s in
           if sofar' > sizeLimit then ((dir @ [n]) # inner, Inl (Error ''Repository too large''))
           else (let (seen, r) = dir_loop dir sofar' rest in ((dir @ [n]) # inner @ seen, r))))"
| "dir_loop dir sofar ((n, Link t) # rest) = dir_loop dir sofar ((n, t) # rest)"
| "dir_loop dir sofar ((n, BrokenLink m) # rest) =
     ([dir @ [n]], Inl (Error (m @ '', stat '' @ [CHR 0x27] @ path_str (dir @ [n]) @ [CHR 0x27])))"
  by pat_completeness auto
termination
  by (relation "measure (\<lambda>(dir, sofar, es). size_list (size_prod (\<lambda>_. 0) size) es)") auto

text \<open>The call \<^verbatim>\<open>getDirSize(tempDir)\<close>, the directory \<^verbatim>\<open>tempDir\<close> holding the entries \<open>es\<close>.\<close>

definition getDirSize :: "string \<Rightarrow> entries \<Rightarrow> path list \<times> (error + nat)" where
  "getDirSize tempDir es = dir_loop [tempDir] 0 es"

text \<open>
  What the machine holds that a request can touch: the directories under the temporary
  directory, by path, and the command lines passed to \<^verbatim>\<open>execSync\<close> so far.
\<close>

record host =
  disk :: "string \<Rightarrow> entries option"
  commands :: "string list"

text \<open>
  What \<^verbatim>\<open>git clone\<close> does for a URL: it fails with a message, leaving perhaps a partial
  directory, or it leaves the checked-out tree.
\<close>

datatype clone_outcome = CloneFailed string "entries option" | Cloned entries

text \<open>
  What a request meets outside the server's own code: the remote repositories, the
  random scan identifier, the temporary directory, the JSON parser, and the error (if
  any) that saving the result to the database throws.
\<close>

record env =
  git_clone :: "string \<Rightarrow> clone_outcome"
  scanId :: string
  tmpdir :: string
  parser :: "string \<Rightarrow> json option"
  save_error :: "error option"

definition clone_command :: "string \<Rightarrow> string \<Rightarrow> string" where
  "clone_command repoUrl tempDir =
     ''git clone --depth 1 '' @ [CHR 0x22] @ repoUrl @ [CHR 0x22] @ '' '' @ [CHR 0x22] @ tempDir @ [CHR 0x22]"

text \<open>\<^verbatim>\<open>cloneRepository\<close>: every error is rethrown with the prefix \<^verbatim>\<open>Failed to clone repository:\<close>.\<close>

definition cloneRepository :: "env \<Rightarrow> string \<Rightarrow> string \<Rightarrow> host \<Rightarrow> (error + bool) \<times> host" where
  "cloneRepository e repoUrl tempDir h =
     (let h1 = h\<lparr>commands := commands h @ [clone_command repoUrl tempDir]\<rparr> in
      case git_clone e repoUrl of
        CloneFailed msg partial \<Rightarrow>
          (Inl (Error (''Failed to clone repository: '' @ msg)), h1\<lparr>disk := (disk h1)(tempDir := partial)\<rparr>)
      | Cloned es \<Rightarrow>
          (let h2 = h1\<lparr>disk := (disk h1)(tempDir \<mapsto> es)\<rparr> in
           case snd (getDirSize tempDir es) of
             Inl err \<Rightarrow> (Inl (Error (''Failed to clone repository: '' @ message err)), h2)
           | Inr n \<Rightarrow> (Inr True, h2)))"

text \<open>\<^verbatim>\<open>cleanupTempDir\<close>; the recursive, forced removal is taken to succeed.\<close>

definition cleanupTempDir :: "string \<Rightarrow> host \<Rightarrow> host" where
  "cleanupTempDir tempDir h =
     (if disk h tempDir \<noteq> None then h\<lparr>disk := (disk h)(tempDir := None)\<rparr> else h)"

subsection \<open>The handler of \<^verbatim>\<open>POST /api/scan\<close>\<close>

datatype reply = Failure nat string | Success string report

text \<open>The status and text chosen in the \<^verbatim>\<open>catch\<close> block from the error's message.\<close>

definition error_reply :: "string \<Rightarrow> reply" where
  "error_reply msg =
     (if str_includes msg ''Failed to clone''
      then Failure 400 ''Could not access repository. It may be private, deleted, or the URL is incorrect.''
      else if str_includes msg ''too large''
      then Failure 400 ''Repository is too large (>100MB). Please try a smaller repository.''
      else if str_includes msg ''timeout''
      then Failure 408 ''Scan took too long to complete. Please try again or choose a smaller repository.''
      else Failure 500 ''Internal server error'')"

text \<open>
  The \<^verbatim>\<open>try\<close> block once \<^verbatim>\<open>tempDir\<close> is set. The scan runs synchronously inside its
  promise, which is therefore settled before the 60 second timer of the race can fire.
\<close>

definition clone_and_scan :: "env \<Rightarrow> string \<Rightarrow> string \<Rightarrow> host \<Rightarrow> (error + report) \<times> host" where
  "clone_and_scan e repoUrl tempDir h =
     (case cloneRepository e repoUrl tempDir h of
        (Inl err, h') \<Rightarrow> (Inl err, h')
      | (Inr ok, h') \<Rightarrow>
          (case scan \<lparr> tree = (case disk h' tempDir of None \<Rightarrow> [] | Some es \<Rightarrow> es),
                        JSON_parse = parser e \<rparr> of
             Inl err \<Rightarrow> (Inl err, h')
           | Inr rep \<Rightarrow>
               (case save_error e of
                  Some err \<Rightarrow> (Inl err, h')
                | None \<Rightarrow> (Inr rep, h'))))"

text \<open>\<^verbatim>\<open>path.join(os.tmpdir(), `shovel-scan-${scanId}`)\<close>.\<close>

definition tempDir_of :: "env \<Rightarrow> string" where
  "tempDir_of e = tmpdir e @ ''/shovel-scan-'' @ scanId e"

text \<open>The handler: the reply, and the machine after the \<^verbatim>\<open>finally\<close> block. \<open>None\<close> is a
  request body without \<^verbatim>\<open>repoUrl\<close>.\<close>

definition handle_scan :: "env \<Rightarrow> string option \<Rightarrow> host \<Rightarrow> reply \<times> host" where
  "handle_scan e repoUrl h =
     (case repoUrl of
        None \<Rightarrow> (Failure 400 ''Repository URL is required'', h)
      | Some url \<Rightarrow>
          if url = [] then (Failure 400 ''Repository URL is required'', h)
          else if \<not> isValidGitHubUrl url then (Failure 400 ''Invalid GitHub URL format'', h)
          else (let tempDir = tempDir_of e in
                case clone_and_scan e url tempDir h of
                  (Inl err, h') \<Rightarrow> (error_reply (message err), cleanupTempDir tempDir h')
                | (Inr rep, h') \<Rightarrow> (Success (scanId e) rep, cleanupTempDir tempDir h')))"

text \<open>The two replies of the validation step.\<close>

definition invalid_reference :: "reply \<Rightarrow> bool" where
  "invalid_reference r \<longleftrightarrow>
     r = Failure 400 ''Repository URL is required'' \<or> r = Failure 400 ''Invalid GitHub URL format''"

subsection \<open>The size walk, in the words of the specification\<close>

text \<open>The sum of the sizes of all files of a tree, a link counting as what it resolves
  to.\<close>

function total_size :: "entries \<Rightarrow> nat" where
  "total_size [] = 0"
| "total_size ((n, File sz c) # rest) = sz + total_size rest"
| "total_size ((n, Dir es) # rest) = total_size es + total_size rest"
| "total_size ((n, Link t) # rest) = total_size ((n, t) # rest)"
| "total_size ((n, BrokenLink m) # rest) = total_size rest"
  by pat_completeness auto
termination
  by (relation "measure (size_list (size_prod (\<lambda>_. 0) size))") auto

text \<open>Every entry of a tree in the order of the walk, with the size it adds to the total
  (nothing for a directory itself).\<close>

function walk_order :: "path \<Rightarrow> entries \<Rightarrow> (path \<times> nat) list" where
  "walk_order dir [] = []"
| "walk_order dir ((n, File sz c) # rest) = (dir @ [n], sz) # walk_order dir rest"
| "walk_order dir ((n, Dir es) # rest) =
     (dir @ [n], 0) # walk_order (dir @ [n]) es @ walk_order dir rest"
| "walk_order dir ((n, Link t) # rest) = walk_order dir ((n, t) # rest)"
| "walk_order dir ((n, BrokenLink m) # rest) = (dir @ [n], 0) # walk_order dir rest"
  by pat_completeness auto
termination
  by (relation "measure (\<lambda>(dir, es). size_list (size_prod (\<lambda>_. 0) size) es)") auto

text \<open>Modelled from the specification's words: accumulate the total byte size and abort
  the instant the running total exceeds the ceiling. The entries visited.\<close>

fun instant_abort :: "nat \<Rightarrow> (path \<times> nat) list \<Rightarrow> path list" where
  "instant_abort sofar [] = []"
| "instant_abort sofar ((p, sz) # rest) =
     (if sofar + sz > sizeLimit then [p] else p # instant_abort (sofar + sz) rest)"

text \<open>Every link of a tree resolves.\<close>

function resolvable :: "entries \<Rightarrow> bool" where
  "resolvable [] = True"
| "resolvable ((n, File sz c) # rest) = resolvable rest"
| "resolvable ((n, Dir es) # rest) = (resolvable es \<and> resolvable rest)"
| "resolvable ((n, Link t) # rest) = resolvable ((n, t) # rest)"
| "resolvable ((n, BrokenLink m) # rest) = False"
  by pat_completeness auto
termination
  by (relation "measure (size_list (size_prod (\<lambda>_. 0) size))") auto

section \<open>Auxiliary notions for the statements\<close>

text \<open>\<open>returns P r\<close>: whenever the computation \<open>r\<close> returns a value, \<open>P\<close> holds of it.\<close>

definition returns :: "('a \<Rightarrow> bool) \<Rightarrow> error + 'a \<Rightarrow> bool" where
  "returns P r = (case r of Inl e \<Rightarrow> True | Inr x \<Rightarrow> P x)"

text \<open>One Security state is no better than another: the score has not risen, a critical
  status has stayed critical, and no finding has been dropped.\<close>

definition worsens :: "sec \<Rightarrow> sec \<Rightarrow> bool" where
  "worsens st st' \<longleftrightarrow>
     fst st' \<le> fst st \<and> (snd (snd st) = ''critical'' \<longrightarrow> snd (snd st') = ''critical'')
     \<and> set (fst (snd st)) \<subseteq> set (fst (snd st'))"

text \<open>The name, score and status of each category of a report, in order (empty when the
  scan threw).\<close>

definition outline :: "error + report \<Rightarrow> (string \<times> int \<times> string) list" where
  "outline r =
     (case r of Inl e \<Rightarrow> [] | Inr rep \<Rightarrow> map (\<lambda>c. (name c, score c, status c)) (categories rep))"

text \<open>The content search finds none of the markers that the Frontend, Backend and
  Authentication scorers look for.\<close>

definition quiet_content :: "world \<Rightarrow> bool" where
  "quiet_content w \<longleftrightarrow>
     list_all (\<lambda>t. \<not> searchInContent w t)
       [''viewport'', ''responsive'', ''@media'', ''express()'', ''app.listen'', ''fastify()'',
        ''Flask'', ''Django'', ''FastAPI'', ''/api/'', ''app.get'', ''app.post'', ''@app.route'',
        ''jwt'', ''token'', ''session'']
     \<and> \<not> (searchInContent w ''login'' \<and> searchInContent w ''password'')"

text \<open>First-match priority, in the words of the specification: the label of the first
  candidate of an ordered list whose test succeeds, and \<^verbatim>\<open>'None'\<close> when none does.\<close>

fun first_match :: "(bool \<times> string) list \<Rightarrow> string" where
  "first_match [] = ''None''"
| "first_match ((c, l) # cs) = (if c then l else first_match cs)"

subsection \<open>Example workspaces\<close>

text \<open>A parser that rejects every text, and one that knows a single document.\<close>

definition unparsable :: "string \<Rightarrow> json option" where
  "unparsable s = None"

definition parses_as :: "string \<Rightarrow> json \<Rightarrow> string \<Rightarrow> json option" where
  "parses_as src v s = (if s = src then Some v else None)"

definition quoted :: "string \<Rightarrow> string" where
  "quoted s = [CHR 0x22] @ s @ [CHR 0x22]"

text \<open>Only a static \<^verbatim>\<open>index.html\<close>.\<close>

definition static_site :: world where
  "static_site = \<lparr> tree = [(''index.html'', File 13 ''<html></html>'')], JSON_parse = unparsable \<rparr>"

text \<open>A static page that declares a viewport and calls an API route.\<close>

definition viewport_site :: world where
  "viewport_site =
     \<lparr> tree = [(''index.html'', File 33 ''<meta name=viewport>fetch(/api/x)'')],
       JSON_parse = unparsable \<rparr>"

text \<open>A static page with a style sheet beside it.\<close>

definition css_site :: world where
  "css_site =
     \<lparr> tree = [(''index.html'', File 13 ''<html></html>''), (''style.css'', File 8 ''body { }'')],
       JSON_parse = unparsable \<rparr>"

definition plain_stack :: StackDetection where
  "plain_stack =
     \<lparr> technologies = [''Static HTML''], hasPackageJson = False, hasDockerfile = False,
       hasTypeScript = False, framework = ''None'', buildTool = ''None'' \<rparr>"

text \<open>A committed \<^verbatim>\<open>.env.local\<close> and nothing else.\<close>

definition dotenv_local_repo :: world where
  "dotenv_local_repo =
     \<lparr> tree = [(''.env.local'', File 10 ''SECRET=abc'')], JSON_parse = unparsable \<rparr>"

text \<open>A committed \<^verbatim>\<open>.env\<close> beside a \<^verbatim>\<open>.gitignore\<close> that lists it.\<close>

definition dotenv_repo :: world where
  "dotenv_repo =
     \<lparr> tree = [(''.env'', File 10 ''SECRET=abc''), (''.gitignore'', File 4 ''.env'')],
       JSON_parse = unparsable \<rparr>"

text \<open>A committed \<^verbatim>\<open>.env\<close> and a source file holding a key-shaped literal.\<close>

definition leaky_repo :: world where
  "leaky_repo =
     \<lparr> tree = [(''.env'', File 10 ''SECRET=abc''),
               (''config.js'', File 35 ''sk_abcdefghijklmnopqrstuvwxyz012345'')],
       JSON_parse = unparsable \<rparr>"

text \<open>A manifest whose whole text is \<^verbatim>\<open>null\<close>.\<close>

definition null_manifest :: world where
  "null_manifest =
     \<lparr> tree = [(''package.json'', File 4 ''null'')], JSON_parse = parses_as ''null'' JNull \<rparr>"

text \<open>A manifest whose text is not JSON.\<close>

definition broken_manifest :: world where
  "broken_manifest =
     \<lparr> tree = [(''package.json'', File 14 ''{ dependencies'')], JSON_parse = unparsable \<rparr>"

text \<open>A Next.js application: \<^verbatim>\<open>react\<close> and \<^verbatim>\<open>next\<close> are direct dependencies,
  \<^verbatim>\<open>webpack\<close> and \<^verbatim>\<open>vite\<close> are dev dependencies, and there is a build script.\<close>

definition next_app_text :: string where
  "next_app_text =
     ''{'' @ quoted ''dependencies'' @ '':{'' @ quoted ''react'' @ '':'' @ quoted ''18'' @ '',''
           @ quoted ''next'' @ '':'' @ quoted ''14'' @ ''},''
         @ quoted ''devDependencies'' @ '':{'' @ quoted ''webpack'' @ '':'' @ quoted ''5'' @ '',''
           @ quoted ''vite'' @ '':'' @ quoted ''5'' @ ''},''
         @ quoted ''scripts'' @ '':{'' @ quoted ''build'' @ '':'' @ quoted ''next build'' @ ''}}''"

definition next_app_json :: json where
  "next_app_json =
     JObj [(''dependencies'', JObj [(''react'', JStr ''18''), (''next'', JStr ''14'')]),
           (''devDependencies'', JObj [(''webpack'', JStr ''5''), (''vite'', JStr ''5'')]),
           (''scripts'', JObj [(''build'', JStr ''next build'')])]"

definition next_app :: world where
  "next_app =
     \<lparr> tree = [(''package.json'', File (length next_app_text) next_app_text)],
       JSON_parse = parses_as next_app_text next_app_json \<rparr>"

text \<open>A manifest with a build script and no dependency at all.\<close>

definition script_only_text :: string where
  "script_only_text =
     ''{'' @ quoted ''scripts'' @ '':{'' @ quoted ''build'' @ '':'' @ quoted ''tsc'' @ ''}}''"

definition script_only_json :: json where
  "script_only_json = JObj [(''scripts'', JObj [(''build'', JStr ''tsc'')])]"

definition script_only_app :: world where
  "script_only_app =
     \<lparr> tree = [(''package.json'', File (length script_only_text) script_only_text)],
       JSON_parse = parses_as script_only_text script_only_json \<rparr>"

text \<open>A manifest that declares \<^verbatim>\<open>react\<close> as a dev dependency only.\<close>

definition dev_react_text :: string where
  "dev_react_text =
     ''{'' @ quoted ''dependencies'' @ '':{},''
         @ quoted ''devDependencies'' @ '':{'' @ quoted ''react'' @ '':'' @ quoted ''18'' @ ''}}''"

definition dev_react_json :: json where
  "dev_react_json =
     JObj [(''dependencies'', JObj []), (''devDependencies'', JObj [(''react'', JStr ''18'')])]"

definition dev_react_app :: world where
  "dev_react_app =
     \<lparr> tree = [(''package.json'', File (length dev_react_text) dev_react_text)],
       JSON_parse = parses_as dev_react_text dev_react_json \<rparr>"

text \<open>A manifest whose dev dependencies are \<^verbatim>\<open>react\<close> and \<^verbatim>\<open>vite\<close>.\<close>

definition dev_vite_text :: string where
  "dev_vite_text =
     ''{'' @ quoted ''devDependencies'' @ '':{'' @ quoted ''react'' @ '':'' @ quoted ''18'' @ '',''
           @ quoted ''vite'' @ '':'' @ quoted ''5'' @ ''}}''"

definition dev_vite_json :: json where
  "dev_vite_json = JObj [(''devDependencies'', JObj [(''react'', JStr ''18''), (''vite'', JStr ''5'')])]"

definition dev_vite_app :: world where
  "dev_vite_app =
     \<lparr> tree = [(''package.json'', File (length dev_vite_text) dev_vite_text)],
       JSON_parse = parses_as dev_vite_text dev_vite_json \<rparr>"

text \<open>The timestamps the limiter holds for a client.\<close>

definition stored :: "limiter \<Rightarrow> string \<Rightarrow> int list" where
  "stored rl k = (case rl k of None \<Rightarrow> [] | Some ts \<Rightarrow> ts)"

text \<open>The timestamps still inside the window at a given time.\<close>

definition recent :: "int \<Rightarrow> int list \<Rightarrow> int list" where
  "recent now ts = filter (\<lambda>t. now - t < windowMs) ts"

text \<open>The times of one client's entries in a list of requests.\<close>

definition log_times :: "string \<Rightarrow> (string \<times> int) list \<Rightarrow> int list" where
  "log_times k lg = map snd (filter (\<lambda>c. fst c = k) lg)"

text \<open>Ten requests of one client, a millisecond apart.\<close>

definition ten_calls :: "(string \<times> int) list" where
  "ten_calls = [(''c'', 0), (''c'', 1), (''c'', 2), (''c'', 3), (''c'', 4),
                (''c'', 5), (''c'', 6), (''c'', 7), (''c'', 8), (''c'', 9)]"

text \<open>A machine with nothing under the temporary directory and no command run.\<close>

definition idle_host :: host where
  "idle_host = \<lparr> disk = Map.empty, commands = [] \<rparr>"

text \<open>A remote side on which every clone fails.\<close>

definition unreachable :: "string \<Rightarrow> clone_outcome" where
  "unreachable url = CloneFailed ''Command failed: git clone'' None"

definition offline :: env where
  "offline = \<lparr> git_clone = unreachable, scanId = ''0123456789abcdef0123456789abcdef'',
                tmpdir = ''/tmp'', parser = unparsable, save_error = None \<rparr>"

text \<open>A file of 60 MB beside a directory of three files of 30 MB.\<close>

definition nested_tree :: entries where
  "nested_tree =
     [(''a.bin'', File 62914560 []),
      (''d'', Dir [(''x.bin'', File 31457280 []), (''y.bin'', File 31457280 []),
                   (''z.bin'', File 31457280 [])])]"

text \<open>A link whose target is missing, before a file of 120 MB.\<close>

definition dangling_tree :: entries where
  "dangling_tree =
     [(''ghost'', BrokenLink ''ENOENT: no such file or directory''), (''huge.bin'', File 125829120 [])]"

definition clones_nested :: "string \<Rightarrow> clone_outcome" where
  "clones_nested url = Cloned nested_tree"

text \<open>A remote side that serves the nested tree.\<close>

definition nested_remote :: env where
  "nested_remote = \<lparr> git_clone = clones_nested, scanId = ''0123456789abcdef0123456789abcdef'',
                      tmpdir = ''/tmp'', parser = unparsable, save_error = None \<rparr>"

subsection \<open>The aggregate, in the words of the specification\<close>

text \<open>The fixed weights as exact fractions; a name that is not in the table weighs 0.\<close>

definition exact_weight :: "string \<Rightarrow> rat" where
  "exact_weight n =
     (if n = ''Frontend'' then 20 / 100
      else if n = ''Backend'' \<or> n = ''Authentication'' \<or> n = ''Database'' \<or> n = ''Deployment Ready''
      then 15 / 100
      else if n = ''Payments'' \<or> n = ''Security'' then 10 / 100
      else 0)"

definition weighted_sum :: "category list \<Rightarrow> rat" where
  "weighted_sum cs = sum_list (map (\<lambda>c. of_int (score c) * exact_weight (name c)) cs)"

text \<open>Modelled from the specification's words: the weighted sum of the scores, rounded
  to the nearest integer (a tie going up, as \<^verbatim>\<open>Math.round\<close> does).\<close>

definition Aggregate :: "category list \<Rightarrow> int" where
  "Aggregate cs = \<lfloor>weighted_sum cs + 1 / 2\<rfloor>"

text \<open>The scores a scorer can produce: the multiples of 5 from 0 to 100.\<close>

definition step5 :: "int \<Rightarrow> bool" where
  "step5 s \<longleftrightarrow> 0 \<le> s \<and> s \<le> 100 \<and> 5 dvd s"

text \<open>A category with a given name and score.\<close>

definition scored :: "string \<Rightarrow> int \<Rightarrow> category" where
  "scored n s =
     \<lparr> name = n, score = s, status = ''critical'', findings = [], suggestion = [], fixAvailable = True \<rparr>"

text \<open>The categories of a workspace that holds only a plain \<^verbatim>\<open>index.html\<close>, by name and
  score.\<close>

definition static_scores :: "category list" where
  "static_scores =
     [scored ''Frontend'' 20, scored ''Backend'' 0, scored ''Authentication'' 0,
      scored ''Database'' 0, scored ''Payments'' 0, scored ''Security'' 80,
      scored ''Deployment Ready'' 0]"

section \<open>Properties\<close>

subsection \<open>Results of computations\<close>

lemma bind_Inr [simp]: "bind (Inr x) f = f x"
  by (simp add: bind_def)

lemma bind_Inl [simp]: "bind (Inl e) f = Inl e"
  by (simp add: bind_def)

lemma returns_Inr [simp]: "returns P (Inr x) = P x"
  by (simp add: returns_def)

lemma returns_Inl [simp]: "returns P (Inl e)"
  by (simp add: returns_def)

lemma returns_bind [simp]: "returns P (bind r f) = returns (\<lambda>x. returns P (f x)) r"
  by (cases r) simp_all

lemma returns_always: "(\<And>x. P x) \<Longrightarrow> returns P r"
  by (cases r) simp_all

lemma get_prop_returns:
  assumes "pj \<noteq> JNull"
  shows "\<exists>v. get_prop pj p = Inr v"
  using assms by (cases pj) (simp_all add: get_prop_def)

lemma allDeps_returns:
  assumes "pj \<noteq> JNull"
  shows "\<exists>deps. allDeps pj = Inr deps"
  using assms by (cases pj) (simp_all add: allDeps_def get_prop_def)

lemma has_script_returns:
  assumes "pj \<noteq> JNull"
  shows "\<exists>b. has_script pj k = Inr b"
proof -
  from assms obtain s where s: "get_prop pj ''scripts'' = Inr s"
    using get_prop_returns by blast
  show ?thesis
  proof (cases s)
    case None
    with s show ?thesis by (auto simp: has_script_def)
  next
    case (Some sv)
    show ?thesis
    proof (cases "sv = JNull")
      case True
      with s Some show ?thesis by (auto simp: has_script_def truthy_def)
    next
      case False
      then obtain b where "get_prop sv k = Inr b"
        using get_prop_returns by blast
      with s Some show ?thesis by (auto simp: has_script_def)
    qed
  qed
qed

subsection \<open>Tallies and categories\<close>

lemma award_nonneg: "0 \<le> n \<Longrightarrow> 0 \<le> fst t \<Longrightarrow> 0 \<le> fst (award c n f t)"
  by (simp add: award_def)

lemma fst_remark [simp]: "fst (remark c f t) = fst t"
  by (simp add: remark_def)

lemma name_category_of [simp]: "name (category_of nm q a p t) = nm"
  by (simp add: category_of_def)

lemma score_category_of [simp]: "score (category_of nm q a p t) = min (fst t) 100"
  by (simp add: category_of_def)

lemma status_category_of [simp]: "status (category_of nm q a p t) = grade 70 q (fst t)"
  by (simp add: category_of_def)

lemma findings_category_of [simp]: "findings (category_of nm q a p t) = snd t"
  by (simp add: category_of_def)

lemma backend_checks_nonneg: "0 \<le> fst (backend_checks w)"
  by (simp add: backend_checks_def Let_def award_nonneg)

lemma frontend_checks_nonneg: "returns (\<lambda>t. 0 \<le> fst t) (frontend_checks sd w)"
  unfolding frontend_checks_def Let_def
  by (auto intro!: returns_always award_nonneg)

lemma authentication_checks_nonneg: "returns (\<lambda>t. 0 \<le> fst t) (authentication_checks w)"
  unfolding authentication_checks_def Let_def
  by (auto intro!: returns_always award_nonneg)

lemma database_checks_nonneg: "returns (\<lambda>t. 0 \<le> fst t) (database_checks w)"
  unfolding database_checks_def Let_def
  by (auto intro!: returns_always award_nonneg)

lemma deployment_checks_nonneg: "returns (\<lambda>t. 0 \<le> fst t) (deployment_checks w)"
  unfolding deployment_checks_def Let_def
  by (auto intro!: returns_always award_nonneg)

lemma payments_checks_range: "returns (\<lambda>t. fst t = 0 \<or> fst t = 100) (payments_checks w)"
  unfolding payments_checks_def Let_def
  by (auto intro!: returns_always)

lemma returns_mono: "returns P r \<Longrightarrow> (\<And>x. P x \<Longrightarrow> Q x) \<Longrightarrow> returns Q r"
  by (cases r) simp_all

lemma scoreFrontend_range: "returns (\<lambda>c. 0 \<le> score c \<and> score c \<le> 100) (scoreFrontend sd w)"
  unfolding scoreFrontend_def
  by (simp, rule returns_mono[OF frontend_checks_nonneg]) simp

lemma scoreBackend_range: "0 \<le> score (scoreBackend w) \<and> score (scoreBackend w) \<le> 100"
  by (simp add: scoreBackend_def backend_checks_nonneg)

lemma scoreAuthentication_range:
  "returns (\<lambda>c. 0 \<le> score c \<and> score c \<le> 100) (scoreAuthentication w)"
  unfolding scoreAuthentication_def
  by (simp, rule returns_mono[OF authentication_checks_nonneg]) simp

lemma scoreDatabase_range: "returns (\<lambda>c. 0 \<le> score c \<and> score c \<le> 100) (scoreDatabase w)"
  unfolding scoreDatabase_def
  by (simp, rule returns_mono[OF database_checks_nonneg]) simp

lemma scorePayments_range: "returns (\<lambda>c. 0 \<le> score c \<and> score c \<le> 100) (scorePayments w)"
  unfolding scorePayments_def
  by (simp, rule returns_mono[OF payments_checks_range]) (auto simp: Let_def)

lemma scoreDeploymentReady_range:
  "returns (\<lambda>c. 0 \<le> score c \<and> score c \<le> 100) (scoreDeploymentReady w)"
  unfolding scoreDeploymentReady_def
  by (simp, rule returns_mono[OF deployment_checks_nonneg]) simp

subsection \<open>The Security scorer\<close>

lemma worsens_refl [simp]: "worsens st st"
  by (simp add: worsens_def)

lemma worsens_trans: "worsens a b \<Longrightarrow> worsens b c \<Longrightarrow> worsens a c"
  by (auto simp: worsens_def)

lemma demote_critical [simp]: "demote ''critical'' = ''critical''"
  by (simp add: demote_def)

lemma test_patterns_worsens: "worsens st (snd (test_patterns rs content fname st))"
proof (induction rs arbitrary: st)
  case Nil
  then show ?case by simp
next
  case (Cons r rs)
  obtain sc fs stat where st: "st = (sc, fs, stat)"
    by (cases st)
  obtain hit r' where t: "regex_test r content = (hit, r')"
    by (cases "regex_test r content")
  define st1 where "st1 = (if hit \<and> \<not> str_includes fname ''.env.example''
                 then (sc - 30, fs @ [''Potential hardcoded API key found in '' @ fname], ''critical'')
                 else (sc, fs, stat))"
  have a: "worsens st st1"
    by (auto simp: st st1_def worsens_def)
  have b: "snd (test_patterns (r # rs) content fname st) = snd (test_patterns rs content fname st1)"
    by (simp add: st t st1_def split: prod.splits)
  show ?case
    unfolding b using a Cons.IH[of st1] by (rule worsens_trans)
qed

lemma scan_files_worsens: "worsens st (scan_files w fs rs st)"
proof (induction fs arbitrary: rs st)
  case Nil
  then show ?case by simp
next
  case (Cons f fs)
  obtain rs' st' where t: "test_patterns rs (readFile w f) (path_str f) st = (rs', st')"
    by (cases "test_patterns rs (readFile w f) (path_str f) st")
  have "worsens st st'"
    using test_patterns_worsens[of st rs "readFile w f" "path_str f"] by (simp add: t)
  then show ?case
    using Cons.IH[of st' rs'] by (simp add: t) (rule worsens_trans)
qed

lemma dotenv_check_worsens: "worsens st (dotenv_check w st)"
  by (cases st) (auto simp: dotenv_check_def worsens_def)

lemma gitignore_check_worsens: "worsens st (gitignore_check w st)"
  by (cases st) (auto simp: gitignore_check_def worsens_def Let_def)

lemma middleware_check_worsens: "worsens st (middleware_check w st)"
  by (cases st) (auto simp: middleware_check_def worsens_def)

lemma security_checks_worsens: "worsens (dotenv_check w (100, [], ''pass'')) (security_checks w)"
  unfolding security_checks_def
  by (blast intro: worsens_trans scan_files_worsens gitignore_check_worsens middleware_check_worsens)

lemma name_scoreSecurity [simp]: "name (scoreSecurity w) = ''Security''"
  by (cases "security_checks w") (simp add: scoreSecurity_def Let_def)

lemma scoreSecurity_range: "0 \<le> score (scoreSecurity w) \<and> score (scoreSecurity w) \<le> 100"
proof -
  have "worsens (100, [], ''pass'') (security_checks w)"
    using dotenv_check_worsens security_checks_worsens by (rule worsens_trans)
  then have "fst (security_checks w) \<le> 100"
    by (simp add: worsens_def)
  then show ?thesis
    by (cases "security_checks w") (simp add: scoreSecurity_def Let_def)
qed

subsection \<open>The scan returns unless the manifest is \<^verbatim>\<open>null\<close>\<close>

lemma scan_returns:
  assumes "fileExists w [''package.json''] \<Longrightarrow> readJsonFile w [''package.json''] \<noteq> JNull"
  shows "\<exists>r. scan w = Inr r \<and> length (categories r) = 7"
proof (cases "fileExists w [''package.json'']")
  case False
  then show ?thesis
    by (simp add: scan_def scan_body_def detectStack_def detectFramework_def detectBuildTool_def
        scoreFrontend_def frontend_checks_def scoreAuthentication_def authentication_checks_def
        scoreDatabase_def database_checks_def scorePayments_def payments_checks_def
        scoreDeploymentReady_def deployment_checks_def Let_def)
next
  case True
  let ?pj = "readJsonFile w [''package.json'']"
  from True assms have nn: "?pj \<noteq> JNull" by simp
  obtain d where d: "get_prop ?pj ''dependencies'' = Inr d"
    using get_prop_returns[OF nn] by blast
  obtain dv where dv: "get_prop ?pj ''devDependencies'' = Inr dv"
    using get_prop_returns[OF nn] by blast
  obtain deps where deps: "allDeps ?pj = Inr deps"
    using allDeps_returns[OF nn] by blast
  obtain b where b: "has_script ?pj ''build'' = Inr b"
    using has_script_returns[OF nn] by blast
  obtain st where st: "has_script ?pj ''start'' = Inr st"
    using has_script_returns[OF nn] by blast
  have fw: "\<exists>x. detectFramework w = Inr x"
    by (simp add: detectFramework_def True d Let_def)
  have bt: "\<exists>x. detectBuildTool w = Inr x"
    by (simp add: detectBuildTool_def True deps b Let_def)
  from fw bt obtain x y where x: "detectFramework w = Inr x" and y: "detectBuildTool w = Inr y"
    by blast
  have "\<exists>sd. detectStack w = Inr sd"
    by (cases "truthy d") (simp_all add: detectStack_def True d dv x y Let_def)
  then obtain sd where sd: "detectStack w = Inr sd"
    by blast
  have "\<exists>t. frontend_checks sd w = Inr t"
    by (simp add: frontend_checks_def True deps Let_def)
  then obtain t1 where t1: "frontend_checks sd w = Inr t1"
    by blast
  have "\<exists>t. authentication_checks w = Inr t"
    by (simp add: authentication_checks_def True deps Let_def)
  then obtain t3 where t3: "authentication_checks w = Inr t3"
    by blast
  have "\<exists>t. database_checks w = Inr t"
    by (simp add: database_checks_def True deps Let_def)
  then obtain t4 where t4: "database_checks w = Inr t4"
    by blast
  have "\<exists>t. payments_checks w = Inr t"
    by (simp add: payments_checks_def True deps Let_def)
  then obtain t5 where t5: "payments_checks w = Inr t5"
    by blast
  have "\<exists>t. deployment_checks w = Inr t"
    by (simp add: deployment_checks_def True b st Let_def)
  then obtain t7 where t7: "deployment_checks w = Inr t7"
    by blast
  show ?thesis
    by (simp add: scan_def scan_body_def sd scoreFrontend_def t1 scoreAuthentication_def t3
        scoreDatabase_def t4 scorePayments_def t5 scoreDeploymentReady_def t7 Let_def)
qed

subsection \<open>A workspace that holds only \<^verbatim>\<open>index.html\<close>\<close>

lemma only_index_exists:
  assumes "tree w = [(''index.html'', File sz content)]"
  shows "fileExists w p \<longleftrightarrow> p = [] \<or> p = [''index.html'']"
  using assms by (cases p) (auto simp: fileExists_def)

lemma only_index_search:
  assumes "tree w = [(''index.html'', File sz content)]" and "''.html'' \<notin> set exts"
  shows "searchInFiles w exts pats = []"
  using assms by (simp add: searchInFiles_def extname_def)

lemma only_index_stack:
  assumes "tree w = [(''index.html'', File sz content)]"
  shows "detectStack w = Inr plain_stack"
  by (simp add: detectStack_def detectFramework_def detectBuildTool_def python_technologies_def
      push_if_def only_index_exists[OF assms] only_index_search[OF assms] Let_def plain_stack_def)

lemma only_index_frontend:
  assumes "tree w = [(''index.html'', File sz content)]" and "quiet_content w"
  shows "frontend_checks plain_stack w = Inr (20, [''Static HTML frontend detected''])"
  using assms(2)
  by (simp add: frontend_checks_def only_index_exists[OF assms(1)] quiet_content_def award_def
      Let_def plain_stack_def)

lemma only_index_backend:
  assumes "tree w = [(''index.html'', File sz content)]" and "quiet_content w"
  shows "backend_checks w = (0, [''No API routes found'', ''No backend detected''])"
  using assms(2)
  by (simp add: backend_checks_def only_index_search[OF assms(1)] quiet_content_def award_def
      remark_def Let_def)

lemma only_index_authentication:
  assumes "tree w = [(''index.html'', File sz content)]" and "quiet_content w"
  shows "authentication_checks w = Inr (0, [''No authentication system detected''])"
  using assms(2)
  by (simp add: authentication_checks_def only_index_exists[OF assms(1)] quiet_content_def award_def
      remark_def Let_def)

lemma only_index_database:
  assumes "tree w = [(''index.html'', File sz content)]"
  shows "database_checks w = Inr (0, [''No database integration detected''])"
  by (simp add: database_checks_def only_index_exists[OF assms(1)] only_index_search[OF assms(1)]
      award_def remark_def Let_def)

lemma only_index_payments:
  assumes "tree w = [(''index.html'', File sz content)]"
  shows "payments_checks w = Inr (0, [''No payment system detected''])"
  by (simp add: payments_checks_def only_index_exists[OF assms(1)] award_def remark_def Let_def)

lemma only_index_deployment:
  assumes "tree w = [(''index.html'', File sz content)]"
  shows "deployment_checks w = Inr (0, [''No deployment configuration detected''])"
  by (simp add: deployment_checks_def only_index_exists[OF assms(1)] award_def remark_def Let_def)

lemma only_index_security:
  assumes "tree w = [(''index.html'', File sz content)]"
  shows "score (scoreSecurity w) = 80 \<and> status (scoreSecurity w) = ''pass''"
  by (simp add: scoreSecurity_def security_checks_def dotenv_check_def gitignore_check_def
      middleware_check_def getAllFiles_def demote_def
      only_index_exists[OF assms(1)] only_index_search[OF assms(1)] Let_def)

lemma only_index_outline:
  assumes "tree w = [(''index.html'', File sz content)]" and "quiet_content w"
  shows "outline (scan w) =
           [(''Frontend'', 20, ''critical''), (''Backend'', 0, ''critical''),
            (''Authentication'', 0, ''critical''), (''Database'', 0, ''critical''),
            (''Payments'', 0, ''warning''), (''Security'', 80, ''pass''),
            (''Deployment Ready'', 0, ''critical'')]"
  by (simp add: scan_def scan_body_def outline_def only_index_stack[OF assms(1)]
      scoreFrontend_def only_index_frontend[OF assms] scoreBackend_def only_index_backend[OF assms]
      scoreAuthentication_def only_index_authentication[OF assms]
      scoreDatabase_def only_index_database[OF assms(1)]
      scorePayments_def only_index_payments[OF assms(1)]
      scoreDeploymentReady_def only_index_deployment[OF assms(1)]
      only_index_security[OF assms(1)] grade_def Let_def)

lemma static_site_files:
  "getAllFiles static_site [''.js'', ''.ts'', ''.jsx'', ''.tsx'', ''.py'', ''.html'', ''.json'']
     = [[''index.html'']]"
  by (simp add: getAllFiles_def searchInFiles_def static_site_def extname_def)

lemma static_site_content:
  "searchInContent static_site t = str_includes ''<html></html>'' (toLowerCase t)"
  by (simp add: searchInContent_def static_site_files readFile_def)
     (simp add: static_site_def toLowerCase_def)

lemma static_site_quiet: "quiet_content static_site"
  unfolding quiet_content_def list.pred_inject
  by (simp add: static_site_content toLowerCase_def)

text \<open>
  C4 (as amended). A workspace that holds only \<^verbatim>\<open>index.html\<close>, whose content has none of
  the markers the content search looks for, is scanned to completion: Frontend scores 20
  with status critical, Backend, Authentication and Database score 0 with status
  critical, Payments scores 0 with status warning, Security scores 80 with status pass and
  Deployment Ready scores 0 with status critical.
\<close>

theorem static_site_report:
  assumes "tree w = [(''index.html'', File sz content)]" and "quiet_content w"
  shows "outline (scan w) =
           [(''Frontend'', 20, ''critical''), (''Backend'', 0, ''critical''),
            (''Authentication'', 0, ''critical''), (''Database'', 0, ''critical''),
            (''Payments'', 0, ''warning''), (''Security'', 80, ''pass''),
            (''Deployment Ready'', 0, ''critical'')]"
  using assms by (rule only_index_outline)

theorem static_site_report_witness:
  "tree static_site = [(''index.html'', File 13 ''<html></html>'')] \<and> quiet_content static_site
   \<and> outline (scan static_site) =
           [(''Frontend'', 20, ''critical''), (''Backend'', 0, ''critical''),
            (''Authentication'', 0, ''critical''), (''Database'', 0, ''critical''),
            (''Payments'', 0, ''warning''), (''Security'', 80, ''pass''),
            (''Deployment Ready'', 0, ''critical'')]"
proof -
  have t: "tree static_site = [(''index.html'', File 13 ''<html></html>'')]"
    by (simp add: static_site_def)
  show ?thesis
    using t static_site_quiet static_site_report[OF t static_site_quiet] by simp
qed

lemma viewport_site_files:
  "getAllFiles viewport_site [''.js'', ''.ts'', ''.jsx'', ''.tsx'', ''.py'', ''.html'', ''.json'']
     = [[''index.html'']]"
  by (simp add: getAllFiles_def searchInFiles_def viewport_site_def extname_def)

lemma viewport_site_content:
  "searchInContent viewport_site t
     = str_includes ''<meta name=viewport>fetch(/api/x)'' (toLowerCase t)"
  by (simp add: searchInContent_def viewport_site_files readFile_def)
     (simp add: viewport_site_def toLowerCase_def)

lemma viewport_site_tree:
  "tree viewport_site = [(''index.html'', File 33 ''<meta name=viewport>fetch(/api/x)'')]"
  by (simp add: viewport_site_def)

lemma viewport_site_frontend:
  "frontend_checks plain_stack viewport_site
     = Inr (30, [''Static HTML frontend detected'', ''Responsive design patterns found''])"
  by (simp add: frontend_checks_def only_index_exists[OF viewport_site_tree] viewport_site_content
      toLowerCase_def award_def Let_def plain_stack_def)

lemma viewport_site_backend:
  "backend_checks viewport_site = (30, [''API routes detected''])"
  by (simp add: backend_checks_def only_index_search[OF viewport_site_tree] viewport_site_content
      toLowerCase_def award_def remark_def Let_def)

text \<open>
  C4, the claim as stated fails: the scan of a workspace that holds only a static
  \<^verbatim>\<open>index.html\<close> reports Frontend with score 20 and status critical, not warning; and
  when the page declares a viewport and names an API route, Frontend scores 30 and Backend
  scores 30 with status warning.
\<close>

theorem static_site_frontend_is_critical:
  "map_of (outline (scan static_site)) ''Frontend'' = Some (20, ''critical'')
   \<and> map_of (outline (scan static_site)) ''Frontend'' \<noteq> Some (20, ''warning'')
   \<and> frontend_checks plain_stack viewport_site
         = Inr (30, [''Static HTML frontend detected'', ''Responsive design patterns found''])
   \<and> score (scoreBackend viewport_site) = 30 \<and> status (scoreBackend viewport_site) = ''warning''"
proof -
  have t: "tree static_site = [(''index.html'', File 13 ''<html></html>'')]"
    by (simp add: static_site_def)
  show ?thesis
    by (simp add: only_index_outline[OF t static_site_quiet] viewport_site_frontend
        scoreBackend_def viewport_site_backend grade_def)
qed

subsection \<open>The Frontend scorer without a manifest\<close>

lemma styling_finding_differs:
  "fw @ '' framework detected'' \<noteq> ''Styling framework/CSS detected''"
proof
  assume "fw @ '' framework detected'' = ''Styling framework/CSS detected''"
  then have "take 10 (rev (fw @ '' framework detected'')) = take 10 (rev ''Styling framework/CSS detected'')"
    by simp
  then show False by simp
qed

text \<open>
  C10. Without a \<^verbatim>\<open>package.json\<close> the Frontend scorer returns a category whose score is
  the sum of the framework or static-markup points, the build-tool points and the
  responsive-marker points only, and none of whose findings is the styling finding,
  whatever \<^verbatim>\<open>.css\<close> files the tree holds.
\<close>

theorem frontend_no_styling_without_manifest:
  assumes "\<not> fileExists w [''package.json'']"
  shows "\<exists>c. scoreFrontend sd w = Inr c
           \<and> score c =
               (if framework sd \<noteq> ''None'' then 40 else if fileExists w [''index.html''] then 20 else 0)
               + (if buildTool sd \<noteq> ''None'' then 30 else 0)
               + (if searchInContent w ''viewport'' \<or> searchInContent w ''responsive''
                     \<or> searchInContent w ''@media'' then 10 else 0)
           \<and> ''Styling framework/CSS detected'' \<notin> set (findings c)"
  using assms
  by (simp add: scoreFrontend_def frontend_checks_def Let_def award_def remark_def
      styling_finding_differs)

lemma css_site_no_manifest: "\<not> fileExists css_site [''package.json'']"
  by (simp add: fileExists_def css_site_def)

lemma css_site_has_css: "searchInFiles css_site [''.css''] [] = [[''style.css'']]"
  by (simp add: searchInFiles_def css_site_def extname_def)

lemma css_site_files:
  "getAllFiles css_site [''.js'', ''.ts'', ''.jsx'', ''.tsx'', ''.py'', ''.html'', ''.json'']
     = [[''index.html'']]"
  by (simp add: getAllFiles_def searchInFiles_def css_site_def extname_def)

lemma css_site_content:
  "searchInContent css_site t = str_includes ''<html></html>'' (toLowerCase t)"
  by (simp add: searchInContent_def css_site_files readFile_def)
     (simp add: css_site_def toLowerCase_def)

theorem frontend_no_styling_without_manifest_witness:
  "\<not> fileExists css_site [''package.json'']
   \<and> searchInFiles css_site [''.css''] [] = [[''style.css'']]
   \<and> (\<exists>c. scoreFrontend plain_stack css_site = Inr c \<and> score c = 20
            \<and> ''Styling framework/CSS detected'' \<notin> set (findings c))"
proof -
  have i: "fileExists css_site [''index.html'']"
    by (simp add: fileExists_def css_site_def)
  have q: "\<not> searchInContent css_site ''viewport''" "\<not> searchInContent css_site ''responsive''"
    "\<not> searchInContent css_site ''@media''"
    by (simp_all add: css_site_content toLowerCase_def)
  show ?thesis
    using frontend_no_styling_without_manifest[OF css_site_no_manifest, of plain_stack]
    by (simp add: css_site_no_manifest css_site_has_css i q plain_stack_def)
qed

subsection \<open>Every category score lies between 0 and 100\<close>

lemma bind_InrE:
  assumes "bind r f = Inr y"
  obtains x where "r = Inr x" and "f x = Inr y"
  using assms by (cases r) simp_all

lemma returnsD: "returns P r \<Longrightarrow> r = Inr x \<Longrightarrow> P x"
  by simp

lemma scan_range:
  "returns (\<lambda>r. length (categories r) = 7
                \<and> list_all (\<lambda>c. 0 \<le> score c \<and> score c \<le> 100) (categories r)) (scan w)"
proof (cases "scan_body w")
  case (Inl e)
  then show ?thesis by (simp add: scan_def)
next
  case (Inr r)
  then obtain sd c1 c3 c4 c5 c7 where
    c1: "scoreFrontend sd w = Inr c1" and c3: "scoreAuthentication w = Inr c3"
    and c4: "scoreDatabase w = Inr c4" and c5: "scorePayments w = Inr c5"
    and c7: "scoreDeploymentReady w = Inr c7"
    and r: "categories r = [c1, scoreBackend w, c3, c4, c5, scoreSecurity w, c7]"
    unfolding scan_body_def by (auto elim!: bind_InrE simp: Let_def)
  note rs = returnsD[OF scoreFrontend_range c1] returnsD[OF scoreAuthentication_range c3]
    returnsD[OF scoreDatabase_range c4] returnsD[OF scorePayments_range c5]
    returnsD[OF scoreDeploymentReady_range c7] scoreBackend_range[of w] scoreSecurity_range[of w]
  show ?thesis
    using rs by (simp add: scan_def Inr r)
qed

text \<open>
  C5. Whatever the workspace and the detected stack, every category an individual scorer
  produces has a score between 0 and 100, and so has each of the seven categories of
  every report the scan returns.
\<close>

theorem category_scores_within_0_100:
  "returns (\<lambda>c. 0 \<le> score c \<and> score c \<le> 100) (scoreFrontend sd w)
   \<and> 0 \<le> score (scoreBackend w) \<and> score (scoreBackend w) \<le> 100
   \<and> returns (\<lambda>c. 0 \<le> score c \<and> score c \<le> 100) (scoreAuthentication w)
   \<and> returns (\<lambda>c. 0 \<le> score c \<and> score c \<le> 100) (scoreDatabase w)
   \<and> returns (\<lambda>c. 0 \<le> score c \<and> score c \<le> 100) (scorePayments w)
   \<and> 0 \<le> score (scoreSecurity w) \<and> score (scoreSecurity w) \<le> 100
   \<and> returns (\<lambda>c. 0 \<le> score c \<and> score c \<le> 100) (scoreDeploymentReady w)
   \<and> returns (\<lambda>r. length (categories r) = 7
                  \<and> list_all (\<lambda>c. 0 \<le> score c \<and> score c \<le> 100) (categories r)) (scan w)"
  using scoreFrontend_range[of sd w] scoreBackend_range[of w] scoreAuthentication_range[of w]
    scoreDatabase_range[of w] scorePayments_range[of w] scoreSecurity_range[of w]
    scoreDeploymentReady_range[of w] scan_range[of w]
  by simp

text \<open>The cap at 0 at work: a committed \<^verbatim>\<open>.env\<close>, two key patterns matching one file and
  no \<^verbatim>\<open>.gitignore\<close> bring the running score to \<open>-30\<close>, and the category scores 0.\<close>

lemma leaky_repo_files:
  "getAllFiles leaky_repo [''.js'', ''.ts'', ''.jsx'', ''.tsx'', ''.py'', ''.env.example'']
     = [[''config.js'']]"
  by (simp add: getAllFiles_def searchInFiles_def leaky_repo_def extname_def)

lemma leaky_repo_all_files:
  "getAllFiles leaky_repo [''.js'', ''.ts'', ''.jsx'', ''.tsx'', ''.py'', ''.html'', ''.json'']
     = [[''config.js'']]"
  by (simp add: getAllFiles_def searchInFiles_def leaky_repo_def extname_def)

lemma leaky_repo_config:
  "readFile leaky_repo [''config.js''] = ''sk_abcdefghijklmnopqrstuvwxyz012345''"
  by (simp add: readFile_def leaky_repo_def)

lemma leaky_repo_patterns:
  "snd (test_patterns apiKeyPatterns ''sk_abcdefghijklmnopqrstuvwxyz012345'' ''config.js''
          (50, [''CRITICAL: .env file committed to repository''], ''critical''))
     = (-10, [''CRITICAL: .env file committed to repository'',
              ''Potential hardcoded API key found in config.js'',
              ''Potential hardcoded API key found in config.js''], ''critical'')"
  by (simp add: apiKeyPatterns_def regex_test_def match_here_def alnum_def)

lemma leaky_repo_security:
  "security_checks leaky_repo
     = (-30, [''CRITICAL: .env file committed to repository'',
              ''Potential hardcoded API key found in config.js'',
              ''Potential hardcoded API key found in config.js'',
              ''No .gitignore file found''], ''critical'')
   \<and> score (scoreSecurity leaky_repo) = 0"
proof -
  have d: "dotenv_check leaky_repo (100, [], ''pass'')
             = (50, [''CRITICAL: .env file committed to repository''], ''critical'')"
    by (simp add: dotenv_check_def fileExists_def leaky_repo_def)
  have g: "\<not> fileExists leaky_repo [''.gitignore'']"
    by (simp add: fileExists_def leaky_repo_def)
  have m: "\<not> searchInContent leaky_repo ''cors''" "\<not> searchInContent leaky_repo ''helmet''"
    by (simp_all add: searchInContent_def leaky_repo_all_files leaky_repo_config toLowerCase_def)
  have s: "scan_files leaky_repo [[''config.js'']] apiKeyPatterns
             (50, [''CRITICAL: .env file committed to repository''], ''critical'')
           = (-10, [''CRITICAL: .env file committed to repository'',
              ''Potential hardcoded API key found in config.js'',
              ''Potential hardcoded API key found in config.js''], ''critical'')"
    using leaky_repo_patterns
    by (cases "test_patterns apiKeyPatterns ''sk_abcdefghijklmnopqrstuvwxyz012345'' ''config.js''
          (50, [''CRITICAL: .env file committed to repository''], ''critical'')")
       (simp add: leaky_repo_config path_str_def)
  have c: "security_checks leaky_repo
     = (-30, [''CRITICAL: .env file committed to repository'',
              ''Potential hardcoded API key found in config.js'',
              ''Potential hardcoded API key found in config.js'',
              ''No .gitignore file found''], ''critical'')"
    unfolding security_checks_def leaky_repo_files d s
    by (simp add: gitignore_check_def g middleware_check_def m)
  show ?thesis
    by (simp add: c scoreSecurity_def Let_def)
qed

subsection \<open>A committed dotenv file\<close>

text \<open>
  C2 (as amended). When one of \<^verbatim>\<open>.env\<close>, \<^verbatim>\<open>.env.local\<close> and \<^verbatim>\<open>.env.production\<close> exists
  in the workspace, the Security category has status critical, whatever its score and
  whatever the other checks find, and its findings include the fixed finding
  \<^verbatim>\<open>CRITICAL: .env file committed to repository\<close>.
\<close>

theorem dotenv_forces_critical:
  assumes "fileExists w [''.env''] \<or> fileExists w [''.env.local''] \<or> fileExists w [''.env.production'']"
  shows "status (scoreSecurity w) = ''critical''
         \<and> ''CRITICAL: .env file committed to repository'' \<in> set (findings (scoreSecurity w))"
proof -
  have d: "dotenv_check w (100, [], ''pass'')
             = (50, [''CRITICAL: .env file committed to repository''], ''critical'')"
    using assms by (simp add: dotenv_check_def)
  obtain sc fs stat where s: "security_checks w = (sc, fs, stat)"
    by (cases "security_checks w")
  from security_checks_worsens[of w]
  have "stat = ''critical''" and "''CRITICAL: .env file committed to repository'' \<in> set fs"
    by (simp_all add: d s worsens_def)
  then show ?thesis
    by (simp add: scoreSecurity_def s Let_def)
qed

lemma dotenv_repo_security:
  "security_checks dotenv_repo
     = (50, [''CRITICAL: .env file committed to repository''], ''critical'')"
proof -
  have d: "dotenv_check dotenv_repo (100, [], ''pass'')
             = (50, [''CRITICAL: .env file committed to repository''], ''critical'')"
    by (simp add: dotenv_check_def fileExists_def dotenv_repo_def)
  have f: "getAllFiles dotenv_repo [''.js'', ''.ts'', ''.jsx'', ''.tsx'', ''.py'', ''.env.example''] = []"
    "getAllFiles dotenv_repo [''.js'', ''.ts'', ''.jsx'', ''.tsx'', ''.py'', ''.html'', ''.json''] = []"
    by (simp_all add: getAllFiles_def searchInFiles_def dotenv_repo_def extname_def)
  have g: "fileExists dotenv_repo [''.gitignore'']" "readFile dotenv_repo [''.gitignore''] = ''.env''"
    by (simp_all add: fileExists_def readFile_def dotenv_repo_def)
  show ?thesis
    unfolding security_checks_def f d
    by (simp add: gitignore_check_def g middleware_check_def searchInContent_def f)
qed

theorem dotenv_forces_critical_witness:
  "fileExists dotenv_repo [''.env'']
   \<and> score (scoreSecurity dotenv_repo) = 50
   \<and> status (scoreSecurity dotenv_repo) = ''critical''
   \<and> ''CRITICAL: .env file committed to repository'' \<in> set (findings (scoreSecurity dotenv_repo))"
proof -
  have e: "fileExists dotenv_repo [''.env'']"
    by (simp add: fileExists_def dotenv_repo_def)
  have s: "score (scoreSecurity dotenv_repo) = 50"
    by (simp add: scoreSecurity_def dotenv_repo_security Let_def)
  show ?thesis
    using dotenv_forces_critical[of dotenv_repo] e s by simp
qed

text \<open>
  C2, the claim as stated fails: with only \<^verbatim>\<open>.env.local\<close> committed, the findings are the
  fixed dotenv finding and the missing-gitignore finding, and neither contains the name
  \<^verbatim>\<open>.env.local\<close>.
\<close>

theorem dotenv_local_not_named:
  "fileExists dotenv_local_repo [''.env.local'']
   \<and> findings (scoreSecurity dotenv_local_repo)
       = [''CRITICAL: .env file committed to repository'', ''No .gitignore file found'']
   \<and> \<not> str_includes ''CRITICAL: .env file committed to repository'' ''.env.local''
   \<and> \<not> str_includes ''No .gitignore file found'' ''.env.local''"
proof -
  have e: "fileExists dotenv_local_repo [''.env.local'']" "\<not> fileExists dotenv_local_repo [''.gitignore'']"
    by (simp_all add: fileExists_def dotenv_local_repo_def)
  have d: "dotenv_check dotenv_local_repo (100, [], ''pass'')
             = (50, [''CRITICAL: .env file committed to repository''], ''critical'')"
    by (simp add: dotenv_check_def e)
  have f: "getAllFiles dotenv_local_repo [''.js'', ''.ts'', ''.jsx'', ''.tsx'', ''.py'', ''.env.example''] = []"
    "getAllFiles dotenv_local_repo [''.js'', ''.ts'', ''.jsx'', ''.tsx'', ''.py'', ''.html'', ''.json''] = []"
    by (simp_all add: getAllFiles_def searchInFiles_def dotenv_local_repo_def extname_def)
  have c: "security_checks dotenv_local_repo
     = (30, [''CRITICAL: .env file committed to repository'', ''No .gitignore file found''], ''critical'')"
    unfolding security_checks_def f d
    by (simp add: gitignore_check_def e middleware_check_def searchInContent_def f)
  show ?thesis
    by (simp add: e scoreSecurity_def c Let_def)
qed

subsection \<open>A manifest that cannot be used\<close>

text \<open>A manifest that does not parse is read as the empty object, and the scan returns
  a report with its seven categories.\<close>

lemma unparsable_manifest_recovered:
  assumes "JSON_parse w (readFile w [''package.json'']) = None"
  shows "readJsonFile w [''package.json''] = JObj []
         \<and> (\<exists>r. scan w = Inr r \<and> length (categories r) = 7)"
proof -
  have r: "readJsonFile w [''package.json''] = JObj []"
    using assms by (simp add: readJsonFile_def)
  then show ?thesis
    using scan_returns[of w] by simp
qed

lemma broken_manifest_recovered:
  "fileExists broken_manifest [''package.json'']
   \<and> readJsonFile broken_manifest [''package.json''] = JObj []
   \<and> (\<exists>r. scan broken_manifest = Inr r \<and> length (categories r) = 7)"
proof -
  have "JSON_parse broken_manifest (readFile broken_manifest [''package.json'']) = None"
    by (simp add: broken_manifest_def unparsable_def)
  from unparsable_manifest_recovered[OF this] show ?thesis
    by (simp add: fileExists_def broken_manifest_def)
qed

text \<open>
  C9, where the code departs from the claim: a \<^verbatim>\<open>package.json\<close> whose text is \<^verbatim>\<open>null\<close>
  parses, so \<^verbatim>\<open>readJsonFile\<close> returns \<^verbatim>\<open>null\<close> and not the empty object; stack detection
  then reads a property of \<^verbatim>\<open>null\<close>, and the scan throws instead of returning a report.
\<close>

theorem null_manifest_scan_fails:
  "fileExists null_manifest [''package.json'']
   \<and> readJsonFile null_manifest [''package.json''] = JNull
   \<and> scan null_manifest = Inl (Error (''Scan failed: '' @ message (TypeError ''dependencies'')))"
proof -
  have e: "fileExists null_manifest [''package.json'']"
    by (simp add: fileExists_def null_manifest_def)
  have r: "readJsonFile null_manifest [''package.json''] = JNull"
    by (simp add: readJsonFile_def readFile_def null_manifest_def parses_as_def)
  show ?thesis
    by (simp add: e r scan_def scan_body_def detectStack_def get_prop_def)
qed

subsection \<open>The singular fields of the stack detection\<close>

lemma no_manifest_no_stack_fields:
  assumes "\<not> fileExists w [''package.json'']"
  shows "detectFramework w = Inr ''None'' \<and> detectBuildTool w = Inr ''None''"
  using assms by (simp add: detectFramework_def detectBuildTool_def)

text \<open>
  C7 (as amended). With a manifest present, \<^verbatim>\<open>framework\<close> is the first match over the
  ordered candidates next, react, vue, svelte, and \<^verbatim>\<open>buildTool\<close> the first match over
  the ordered candidates vite, webpack and, last, a declared build script (labelled
  \<^verbatim>\<open>npm scripts\<close>); the dependency candidates are matched against the names declared as
  direct or dev dependencies, and each field is \<^verbatim>\<open>'None'\<close> when no candidate matches.
  For \<^verbatim>\<open>framework\<close>, and for it alone, this is stated for manifests whose dev
  dependencies name no framework candidate.
\<close>

theorem stack_fields_first_match:
  assumes "fileExists w [''package.json'']"
    and "readJsonFile w [''package.json''] = pj"
    and "get_prop pj ''dependencies'' = Inr d"
    and "get_prop pj ''devDependencies'' = Inr dv"
    and "has_script pj ''build'' = Inr b"
  shows "let deps = keys_or_empty d @ keys_or_empty dv in
           (list_all (\<lambda>n. n \<notin> set (keys_or_empty dv)) [''next'', ''react'', ''vue'', ''svelte'']
              \<longrightarrow> detectFramework w =
                   Inr (first_match [(''next'' \<in> set deps, ''Next.js''), (''react'' \<in> set deps, ''React''),
                                     (''vue'' \<in> set deps, ''Vue.js''), (''svelte'' \<in> set deps, ''Svelte'')]))
           \<and> detectBuildTool w =
               Inr (first_match [(''vite'' \<in> set deps, ''Vite''), (''webpack'' \<in> set deps, ''Webpack''),
                                 (b, ''npm scripts'')])"
proof -
  have a: "allDeps pj = Inr (remdups (keys_or_empty d @ keys_or_empty dv))"
    by (simp add: allDeps_def assms(3,4))
  have f: "detectFramework w =
             Inr (first_match [(''next'' \<in> set (keys_or_empty d), ''Next.js''),
                               (''react'' \<in> set (keys_or_empty d), ''React''),
                               (''vue'' \<in> set (keys_or_empty d), ''Vue.js''),
                               (''svelte'' \<in> set (keys_or_empty d), ''Svelte'')])"
    by (simp add: detectFramework_def assms(1,2,3) Let_def)
  have t: "detectBuildTool w =
             Inr (first_match [(''vite'' \<in> set (keys_or_empty d @ keys_or_empty dv), ''Vite''),
                               (''webpack'' \<in> set (keys_or_empty d @ keys_or_empty dv), ''Webpack''),
                               (b, ''npm scripts'')])"
    by (simp add: detectBuildTool_def assms(1,2,5) a Let_def)
  show ?thesis
    unfolding Let_def f t by simp
qed

lemma next_app_manifest:
  "fileExists next_app [''package.json''] \<and> readJsonFile next_app [''package.json''] = next_app_json"
  by (simp add: fileExists_def readJsonFile_def readFile_def next_app_def parses_as_def)

lemma dev_vite_manifest:
  "fileExists dev_vite_app [''package.json''] \<and> readJsonFile dev_vite_app [''package.json''] = dev_vite_json"
  by (simp add: fileExists_def readJsonFile_def readFile_def dev_vite_app_def parses_as_def)

text \<open>
  Two manifests. In the first the dev dependencies name no framework candidate, and both
  fields follow. In the second they name \<^verbatim>\<open>react\<close>, and \<^verbatim>\<open>buildTool\<close> still follows:
  it is \<^verbatim>\<open>Vite\<close>, from the dev dependency \<^verbatim>\<open>vite\<close>.
\<close>

theorem stack_fields_first_match_witness:
  "fileExists next_app [''package.json'']
   \<and> readJsonFile next_app [''package.json''] = next_app_json
   \<and> get_prop next_app_json ''dependencies'' = Inr (Some (JObj [(''react'', JStr ''18''), (''next'', JStr ''14'')]))
   \<and> get_prop next_app_json ''devDependencies'' = Inr (Some (JObj [(''webpack'', JStr ''5''), (''vite'', JStr ''5'')]))
   \<and> has_script next_app_json ''build'' = Inr True
   \<and> list_all (\<lambda>n. n \<notin> set (keys_or_empty (Some (JObj [(''webpack'', JStr ''5''), (''vite'', JStr ''5'')]))))
        [''next'', ''react'', ''vue'', ''svelte'']
   \<and> detectFramework next_app = Inr ''Next.js''
   \<and> detectBuildTool next_app = Inr ''Vite''
   \<and> fileExists dev_vite_app [''package.json'']
   \<and> readJsonFile dev_vite_app [''package.json''] = dev_vite_json
   \<and> get_prop dev_vite_json ''dependencies'' = Inr None
   \<and> get_prop dev_vite_json ''devDependencies'' = Inr (Some (JObj [(''react'', JStr ''18''), (''vite'', JStr ''5'')]))
   \<and> has_script dev_vite_json ''build'' = Inr False
   \<and> detectBuildTool dev_vite_app = Inr ''Vite''"
proof -
  have d: "get_prop next_app_json ''dependencies'' = Inr (Some (JObj [(''react'', JStr ''18''), (''next'', JStr ''14'')]))"
    and dv: "get_prop next_app_json ''devDependencies'' = Inr (Some (JObj [(''webpack'', JStr ''5''), (''vite'', JStr ''5'')]))"
    by (simp_all add: get_prop_def next_app_json_def)
  have b: "has_script next_app_json ''build'' = Inr True"
    by (simp add: has_script_def get_prop_def next_app_json_def truthy_def)
  have k: "list_all (\<lambda>n. n \<notin> set (keys_or_empty (Some (JObj [(''webpack'', JStr ''5''), (''vite'', JStr ''5'')]))))
             [''next'', ''react'', ''vue'', ''svelte'']"
    by (simp add: keys_or_empty_def truthy_def)
  have d2: "get_prop dev_vite_json ''dependencies'' = Inr None"
    and dv2: "get_prop dev_vite_json ''devDependencies'' = Inr (Some (JObj [(''react'', JStr ''18''), (''vite'', JStr ''5'')]))"
    by (simp_all add: get_prop_def dev_vite_json_def)
  have b2: "has_script dev_vite_json ''build'' = Inr False"
    by (simp add: has_script_def get_prop_def dev_vite_json_def truthy_def)
  have n: "detectFramework next_app = Inr ''Next.js'' \<and> detectBuildTool next_app = Inr ''Vite''"
    using stack_fields_first_match[OF conjunct1[OF next_app_manifest] conjunct2[OF next_app_manifest] d dv b] k
    by (simp add: Let_def keys_or_empty_def truthy_def)
  have v: "detectBuildTool dev_vite_app = Inr ''Vite''"
    using stack_fields_first_match[OF conjunct1[OF dev_vite_manifest] conjunct2[OF dev_vite_manifest] d2 dv2 b2]
    by (simp add: Let_def keys_or_empty_def truthy_def)
  show ?thesis
    using n v k by (simp add: next_app_manifest dev_vite_manifest d dv b d2 dv2 b2)
qed

text \<open>
  C7, the claim as stated fails. A manifest with a build script and no dependency gives
  \<^verbatim>\<open>buildTool\<close> the value \<^verbatim>\<open>npm scripts\<close>, not \<^verbatim>\<open>None\<close>, though no dependency name
  matches; and a manifest that declares \<^verbatim>\<open>react\<close> as a dev dependency only gives
  \<^verbatim>\<open>framework\<close> the value \<^verbatim>\<open>None\<close>.
\<close>

theorem stack_fields_not_only_dependencies:
  "allDeps (readJsonFile script_only_app [''package.json'']) = Inr []
   \<and> detectBuildTool script_only_app = Inr ''npm scripts''
   \<and> allDeps (readJsonFile dev_react_app [''package.json'']) = Inr [''react'']
   \<and> detectFramework dev_react_app = Inr ''None''"
proof -
  have s: "fileExists script_only_app [''package.json'']"
    "readJsonFile script_only_app [''package.json''] = script_only_json"
    by (simp_all add: fileExists_def readJsonFile_def readFile_def script_only_app_def parses_as_def)
  have r: "fileExists dev_react_app [''package.json'']"
    "readJsonFile dev_react_app [''package.json''] = dev_react_json"
    by (simp_all add: fileExists_def readJsonFile_def readFile_def dev_react_app_def parses_as_def)
  have sa: "allDeps script_only_json = Inr []"
    by (simp add: allDeps_def get_prop_def script_only_json_def keys_or_empty_def truthy_def)
  have sb: "has_script script_only_json ''build'' = Inr True"
    by (simp add: has_script_def get_prop_def script_only_json_def truthy_def)
  have ra: "allDeps dev_react_json = Inr [''react'']"
    by (simp add: allDeps_def get_prop_def dev_react_json_def keys_or_empty_def truthy_def)
  have rf: "detectFramework dev_react_app = Inr ''None''"
    by (simp add: detectFramework_def r get_prop_def dev_react_json_def keys_or_empty_def truthy_def)
  show ?thesis
    by (simp add: s r sa ra rf detectBuildTool_def sb)
qed

subsection \<open>The rate limiter\<close>

lemma rateLimit_admits_iff:
  "fst (rateLimit k now rl) = Admitted \<longleftrightarrow> length (recent now (stored rl k)) < maxRequests"
  by (auto simp: rateLimit_def Let_def stored_def recent_def split: option.splits)

lemma rateLimit_rejects:
  "fst (rateLimit k now rl) \<noteq> Admitted \<Longrightarrow>
     fst (rateLimit k now rl) = Rejected 429 ''Rate limit exceeded. Try again later.'' retryAfter"
  by (auto simp: rateLimit_def Let_def split: option.splits if_splits)

lemma stored_rateLimit:
  "stored (snd (rateLimit k now rl)) k' =
     (if k' = k \<and> fst (rateLimit k now rl) = Admitted then recent now (stored rl k) @ [now]
      else stored rl k')"
  by (auto simp: rateLimit_def Let_def stored_def recent_def split: option.splits)

lemma recent_recent: "now' \<le> now \<Longrightarrow> recent now (recent now' ts) = recent now ts"
  by (induction ts) (auto simp: recent_def)

lemma recent_append [simp]: "recent now (xs @ ys) = recent now xs @ recent now ys"
  by (simp add: recent_def)

lemma recent_Nil [simp]: "recent now [] = []"
  by (simp add: recent_def)

lemma serve_snoc: "serve (calls @ [c]) = serve_one (serve calls) c"
  by (simp add: serve_def)

lemma serve_one_cases:
  "serve_one st (k, now) =
     (if fst (rateLimit k now (fst st)) = Admitted
      then (snd (rateLimit k now (fst st)), snd st @ [(k, now)])
      else (snd (rateLimit k now (fst st)), snd st))"
  by (cases "rateLimit k now (fst st)"; cases "fst (rateLimit k now (fst st))")
     (auto simp: serve_one_def)

lemma admitted_subset: "set (snd (serve calls)) \<subseteq> set calls"
proof (induction calls rule: rev_induct)
  case Nil
  then show ?case by (simp add: serve_def)
next
  case (snoc c calls)
  obtain k now where c: "c = (k, now)" by (cases c)
  show ?case
    using snoc.IH by (auto simp: serve_snoc c serve_one_cases)
qed

lemma limiter_tracks_log:
  assumes "sorted (map snd calls)" and "\<forall>c\<in>set calls. snd c \<le> now"
  shows "recent now (stored (fst (serve calls)) k) = recent now (log_times k (snd (serve calls)))"
  using assms
proof (induction calls arbitrary: now rule: rev_induct)
  case Nil
  then show ?case by (simp add: serve_def stored_def log_times_def recent_def)
next
  case (snoc c calls)
  obtain k' now' where c: "c = (k', now')" by (cases c)
  from snoc.prems(1) have s: "sorted (map snd calls)" and le: "\<forall>x\<in>set calls. snd x \<le> now'"
    by (auto simp: c sorted_append)
  from snoc.prems(2) have n: "now' \<le> now" and le2: "\<forall>x\<in>set calls. snd x \<le> now"
    by (auto simp: c)
  let ?st = "serve calls"
  show ?case
  proof (cases "k = k' \<and> fst (rateLimit k' now' (fst ?st)) = Admitted")
    case True
    have "recent now (stored (fst (serve (calls @ [c]))) k)
            = recent now (recent now' (stored (fst ?st) k)) @ recent now [now']"
      using True by (simp add: serve_snoc c serve_one_cases stored_rateLimit)
    also have "\<dots> = recent now (stored (fst ?st) k) @ recent now [now']"
      by (simp add: recent_recent[OF n])
    also have "\<dots> = recent now (log_times k (snd ?st)) @ recent now [now']"
      by (simp add: snoc.IH[OF s le2])
    also have "\<dots> = recent now (log_times k (snd (serve (calls @ [c]))))"
      using True by (simp add: serve_snoc c serve_one_cases log_times_def)
    finally show ?thesis .
  next
    case False
    have "recent now (stored (fst (serve (calls @ [c]))) k) = recent now (stored (fst ?st) k)"
      using False by (auto simp: serve_snoc c serve_one_cases stored_rateLimit)
    also have "\<dots> = recent now (log_times k (snd ?st))"
      by (simp add: snoc.IH[OF s le2])
    also have "\<dots> = recent now (log_times k (snd (serve (calls @ [c]))))"
      using False by (auto simp: serve_snoc c serve_one_cases log_times_def)
    finally show ?thesis .
  qed
qed

lemma window_bound:
  assumes "sorted (map snd calls)"
  shows "length (filter (\<lambda>t. a \<le> t \<and> t < a + windowMs) (log_times k (snd (serve calls)))) \<le> maxRequests"
  using assms
proof (induction calls rule: rev_induct)
  case Nil
  then show ?case by (simp add: serve_def log_times_def)
next
  case (snoc c calls)
  obtain k' now' where c: "c = (k', now')" by (cases c)
  from snoc.prems have s: "sorted (map snd calls)" and le: "\<forall>x\<in>set calls. snd x \<le> now'"
    by (auto simp: c sorted_append)
  let ?st = "serve calls"
  let ?in = "\<lambda>t. a \<le> t \<and> t < a + windowMs"
  show ?case
  proof (cases "k = k' \<and> fst (rateLimit k' now' (fst ?st)) = Admitted \<and> ?in now'")
    case True
    then have adm: "length (recent now' (stored (fst ?st) k)) < maxRequests"
      by (simp add: rateLimit_admits_iff)
    have tr: "recent now' (stored (fst ?st) k) = recent now' (log_times k (snd ?st))"
      by (rule limiter_tracks_log[OF s le])
    have older: "\<forall>t\<in>set (log_times k (snd ?st)). t \<le> now'"
      using admitted_subset[of calls] le by (fastforce simp: log_times_def)
    have "filter ?in (log_times k (snd ?st)) = filter ?in (recent now' (log_times k (snd ?st)))"
      unfolding recent_def filter_filter
      by (rule filter_cong) (use True older in auto)
    then have "length (filter ?in (log_times k (snd ?st))) \<le> length (recent now' (log_times k (snd ?st)))"
      by (metis length_filter_le)
    with adm tr have "length (filter ?in (log_times k (snd ?st))) < maxRequests"
      by simp
    moreover have "log_times k (snd (serve (calls @ [c]))) = log_times k (snd ?st) @ [now']"
      using True by (simp add: serve_snoc c serve_one_cases log_times_def)
    ultimately show ?thesis
      using True by simp
  next
    case False
    have "filter ?in (log_times k (snd (serve (calls @ [c])))) = filter ?in (log_times k (snd ?st))"
      using False by (auto simp: serve_snoc c serve_one_cases log_times_def)
    then show ?thesis
      using snoc.IH[OF s] by simp
  qed
qed

lemma admitted_times_log: "admitted_times k calls = log_times k (snd (serve calls))"
  by (simp add: admitted_times_def log_times_def)

text \<open>
  C8. Requests served in the order of their times, from the empty limiter. For every
  client and every interval of one window length, at most ten of the client's requests
  with a time in the interval are admitted. A further request is admitted exactly when
  fewer than ten of the client's admitted requests are less than one window old;
  otherwise it is answered with status 429 and a retry-after of 3600 seconds. So an
  eleventh request within the window of ten admissions is rejected, and a slot is free
  again once the first admission is a full window old. An admission stores the
  timestamps still inside the window followed by the new one.
\<close>

theorem admission_guard:
  assumes "sorted (map snd calls)"
  shows "maxRequests = 10 \<and> windowMs = 3600000 \<and> retryAfter = 3600
    \<and> (\<forall>k a. length (filter (\<lambda>t. a \<le> t \<and> t < a + windowMs) (admitted_times k calls)) \<le> maxRequests)
    \<and> (\<forall>k now. (\<forall>c\<in>set calls. snd c \<le> now) \<longrightarrow>
          fst (rateLimit k now (limiter_after calls)) =
            (if length (filter (\<lambda>t. now - t < windowMs) (admitted_times k calls)) < maxRequests
             then Admitted
             else Rejected 429 ''Rate limit exceeded. Try again later.'' retryAfter))
    \<and> (\<forall>k now rl. fst (rateLimit k now rl) = Admitted \<longrightarrow>
          snd (rateLimit k now rl) k =
            Some (filter (\<lambda>t. now - t < windowMs) (case rl k of None \<Rightarrow> [] | Some ts \<Rightarrow> ts) @ [now]))"
proof -
  have cv: "maxRequests = 10 \<and> windowMs = 3600000 \<and> retryAfter = 3600"
    by (simp add: maxRequests_def windowMs_def retryAfter_def)
  have bound: "length (filter (\<lambda>t. a \<le> t \<and> t < a + windowMs) (admitted_times k calls)) \<le> maxRequests"
    for k a
    unfolding admitted_times_log using assms by (rule window_bound)
  have crit: "fst (rateLimit k now (limiter_after calls)) =
            (if length (filter (\<lambda>t. now - t < windowMs) (admitted_times k calls)) < maxRequests
             then Admitted
             else Rejected 429 ''Rate limit exceeded. Try again later.'' retryAfter)"
    if le: "\<forall>c\<in>set calls. snd c \<le> now" for k now
  proof -
    have "recent now (stored (limiter_after calls) k) = recent now (admitted_times k calls)"
      unfolding admitted_times_log limiter_after_def using assms le by (rule limiter_tracks_log)
    then have "fst (rateLimit k now (limiter_after calls)) = Admitted
                 \<longleftrightarrow> length (filter (\<lambda>t. now - t < windowMs) (admitted_times k calls)) < maxRequests"
      by (simp add: rateLimit_admits_iff recent_def)
    then show ?thesis
      using rateLimit_rejects[of k now "limiter_after calls"] by auto
  qed
  have store: "snd (rateLimit k now rl) k =
            Some (filter (\<lambda>t. now - t < windowMs) (case rl k of None \<Rightarrow> [] | Some ts \<Rightarrow> ts) @ [now])"
    if "fst (rateLimit k now rl) = Admitted" for k now rl
    using that by (auto simp: rateLimit_def Let_def split: option.splits if_splits)
  from cv bound crit store show ?thesis
    by blast
qed

lemma ten_calls_served:
  "limiter_after ten_calls ''c'' = Some [0, 1, 2, 3, 4, 5, 6, 7, 8, 9]
   \<and> admitted_times ''c'' ten_calls = [0, 1, 2, 3, 4, 5, 6, 7, 8, 9]"
  by (simp add: limiter_after_def admitted_times_def serve_def ten_calls_def serve_one_def
      rateLimit_def Let_def windowMs_def maxRequests_def)

theorem admission_guard_witness:
  "sorted (map snd ten_calls)
   \<and> admitted_times ''c'' ten_calls = [0, 1, 2, 3, 4, 5, 6, 7, 8, 9]
   \<and> fst (rateLimit ''c'' 10 (limiter_after ten_calls))
       = Rejected 429 ''Rate limit exceeded. Try again later.'' 3600
   \<and> fst (rateLimit ''c'' 3599999 (limiter_after ten_calls))
       = Rejected 429 ''Rate limit exceeded. Try again later.'' 3600
   \<and> fst (rateLimit ''c'' 3600000 (limiter_after ten_calls)) = Admitted"
proof -
  have s: "sorted (map snd ten_calls)"
    by (simp add: ten_calls_def)
  note g = admission_guard[OF s]
  have le: "\<forall>c\<in>set ten_calls. snd c \<le> 10" "\<forall>c\<in>set ten_calls. snd c \<le> 3599999"
    "\<forall>c\<in>set ten_calls. snd c \<le> 3600000"
    by (simp_all add: ten_calls_def)
  from g have crit: "(\<forall>c\<in>set ten_calls. snd c \<le> now) \<Longrightarrow>
          fst (rateLimit ''c'' now (limiter_after ten_calls)) =
            (if length (filter (\<lambda>t. now - t < windowMs) (admitted_times ''c'' ten_calls)) < maxRequests
             then Admitted
             else Rejected 429 ''Rate limit exceeded. Try again later.'' retryAfter)" for now
    by blast
  from g have c: "maxRequests = 10" "windowMs = 3600000" "retryAfter = 3600"
    by blast+
  show ?thesis
    using crit[OF le(1)] crit[OF le(2)] crit[OF le(3)]
    by (simp add: s conjunct2[OF ten_calls_served] c)
qed

subsection \<open>Validation of the reference\<close>

lemma startsWith_iff: "startsWith s p \<longleftrightarrow> (\<exists>r. s = p @ r)"
  by (induction s p rule: startsWith.induct) auto

lemma slash_not_name_char: "CHR ''/'' \<notin> set name_chars"
  by (simp add: name_chars_def)

lemma takeWhile_segment:
  assumes "set seg \<subseteq> set name_chars"
  shows "takeWhile (\<lambda>c. c \<in> set name_chars) (seg @ CHR ''/'' # r) = seg"
    and "dropWhile (\<lambda>c. c \<in> set name_chars) (seg @ CHR ''/'' # r) = CHR ''/'' # r"
    and "takeWhile (\<lambda>c. c \<in> set name_chars) seg = seg"
    and "dropWhile (\<lambda>c. c \<in> set name_chars) seg = []"
  using assms slash_not_name_char
  by (auto simp: takeWhile_append dropWhile_append subset_iff)

text \<open>The matcher accepts exactly the language of the regular expression.\<close>

lemma isValidGitHubUrl_iff:
  "isValidGitHubUrl url \<longleftrightarrow>
     (\<exists>owner repo. owner \<noteq> [] \<and> repo \<noteq> []
        \<and> set owner \<subseteq> set name_chars \<and> set repo \<subseteq> set name_chars
        \<and> (url = ''https://github.com/'' @ owner @ ''/'' @ repo
             \<or> url = ''https://github.com/'' @ owner @ ''/'' @ repo @ ''/''))"
  (is "?L \<longleftrightarrow> ?R")
proof
  assume ?L
  let ?P = "\<lambda>c. c \<in> set name_chars"
  from \<open>?L\<close> obtain r1 where u: "url = ''https://github.com/'' @ r1"
    unfolding isValidGitHubUrl_def startsWith_iff by blast
  have d: "drop (length ''https://github.com/'') url = r1"
    by (simp add: u)
  from \<open>?L\<close> obtain r3 where o: "takeWhile ?P r1 \<noteq> []" and r2: "dropWhile ?P r1 = CHR ''/'' # r3"
    and rp: "takeWhile ?P r3 \<noteq> []" and r4: "dropWhile ?P r3 = [] \<or> dropWhile ?P r3 = ''/''"
    unfolding isValidGitHubUrl_def d Let_def by (auto split: list.splits)
  have a: "r1 = takeWhile ?P r1 @ CHR ''/'' # takeWhile ?P r3 @ dropWhile ?P r3"
    using takeWhile_dropWhile_id[of ?P r1] takeWhile_dropWhile_id[of ?P r3] r2 by simp
  have s: "set (takeWhile ?P r1) \<subseteq> set name_chars" "set (takeWhile ?P r3) \<subseteq> set name_chars"
    by (auto dest: set_takeWhileD)
  from r4 show ?R
  proof
    assume "dropWhile ?P r3 = []"
    with a u have "url = ''https://github.com/'' @ takeWhile ?P r1 @ ''/'' @ takeWhile ?P r3"
      by simp
    with o rp s show ?R by blast
  next
    assume "dropWhile ?P r3 = ''/''"
    with a u have "url = ''https://github.com/'' @ takeWhile ?P r1 @ ''/'' @ takeWhile ?P r3 @ ''/''"
      by simp
    with o rp s show ?R by blast
  qed
next
  assume ?R
  then obtain owner repo where n: "owner \<noteq> []" "repo \<noteq> []"
    and s: "set owner \<subseteq> set name_chars" "set repo \<subseteq> set name_chars"
    and u: "url = ''https://github.com/'' @ owner @ ''/'' @ repo
             \<or> url = ''https://github.com/'' @ owner @ ''/'' @ repo @ ''/''"
    by blast
  from u show ?L
  proof
    assume e: "url = ''https://github.com/'' @ owner @ ''/'' @ repo"
    have "startsWith url ''https://github.com/''"
      unfolding startsWith_iff e by blast
    moreover have "drop (length ''https://github.com/'') url = owner @ CHR ''/'' # repo"
      by (simp add: e)
    ultimately show ?L
      using n s(2) by (auto simp: isValidGitHubUrl_def Let_def takeWhile_segment[OF s(1)]
          takeWhile_segment(3,4)[OF s(2)])
  next
    assume e: "url = ''https://github.com/'' @ owner @ ''/'' @ repo @ ''/''"
    have "startsWith url ''https://github.com/''"
      unfolding startsWith_iff e by blast
    moreover have "drop (length ''https://github.com/'') url = owner @ CHR ''/'' # repo @ CHR ''/'' # []"
      by (simp add: e)
    ultimately show ?L
      using n s(2) by (auto simp: isValidGitHubUrl_def Let_def takeWhile_segment[OF s(1)]
          takeWhile_segment(1,2)[OF s(2)])
  qed
qed

lemma valid_url_nonempty: "isValidGitHubUrl url \<Longrightarrow> url \<noteq> []"
  by (auto simp: isValidGitHubUrl_def)

lemma error_reply_not_invalid_reference: "\<not> invalid_reference (error_reply msg)"
  by (simp add: invalid_reference_def error_reply_def)

lemma handle_scan_valid:
  assumes "isValidGitHubUrl url"
  shows "\<not> invalid_reference (fst (handle_scan e (Some url) h))"
    and "commands (snd (handle_scan e (Some url) h))
           = commands h @ [clone_command url (tempDir_of e)]"
proof -
  let ?dir = "tempDir_of e"
  obtain r h' where c: "clone_and_scan e url ?dir h = (r, h')"
    by (cases "clone_and_scan e url ?dir h")
  have n: "url \<noteq> []"
    using assms by (rule valid_url_nonempty)
  have h: "handle_scan e (Some url) h
             = (case r of Inl err \<Rightarrow> error_reply (message err) | Inr rep \<Rightarrow> Success (scanId e) rep,
                cleanupTempDir ?dir h')"
    using assms n by (cases r) (simp_all add: handle_scan_def Let_def c)
  show "\<not> invalid_reference (fst (handle_scan e (Some url) h))"
  proof (cases r)
    case (Inl err)
    then show ?thesis
      unfolding h by (simp add: error_reply_not_invalid_reference)
  next
    case (Inr rep)
    then show ?thesis
      unfolding h by (simp add: invalid_reference_def)
  qed
  have "commands h' = commands h @ [clone_command url ?dir]"
    using c
    by (auto simp: clone_and_scan_def cloneRepository_def Let_def
        split: clone_outcome.splits sum.splits option.splits)
  then show "commands (snd (handle_scan e (Some url) h)) = commands h @ [clone_command url ?dir]"
    unfolding h by (simp add: cleanupTempDir_def)
qed

text \<open>
  C1. The handler of \<^verbatim>\<open>POST /api/scan\<close> (which runs once the rate limiter has admitted
  the request), for a request whose \<^verbatim>\<open>repoUrl\<close> is a string. If the string matches the
  pattern, the reply is not a validation failure, and the clone command is the one command
  the handler runs. If it does not match, the reply is a validation failure (status 400
  with \<^verbatim>\<open>Invalid GitHub URL format\<close>, or with \<^verbatim>\<open>Repository URL is required\<close> for the
  empty string), and the machine is left as it was: no command has been run and nothing
  has been written.
\<close>

theorem reference_validation:
  "(isValidGitHubUrl url \<longrightarrow>
      \<not> invalid_reference (fst (handle_scan e (Some url) h))
      \<and> commands (snd (handle_scan e (Some url) h))
          = commands h @ [clone_command url (tempDir_of e)])
   \<and> (\<not> isValidGitHubUrl url \<longrightarrow>
        fst (handle_scan e (Some url) h)
          = Failure 400 (if url = [] then ''Repository URL is required'' else ''Invalid GitHub URL format'')
        \<and> invalid_reference (fst (handle_scan e (Some url) h))
        \<and> snd (handle_scan e (Some url) h) = h)"
proof (cases "isValidGitHubUrl url")
  case True
  with handle_scan_valid[OF True, of e h] show ?thesis by simp
next
  case False
  then show ?thesis
    by (simp add: handle_scan_def invalid_reference_def)
qed

lemma shovel_url_valid: "isValidGitHubUrl ''https://github.com/NoGraveDev/shovel''"
  by (simp add: isValidGitHubUrl_def name_chars_def)

lemma example_url_invalid: "\<not> isValidGitHubUrl ''https://example.com/owner/repo''"
  by (simp add: isValidGitHubUrl_def)

theorem reference_validation_witness:
  "isValidGitHubUrl ''https://github.com/NoGraveDev/shovel''
   \<and> \<not> invalid_reference (fst (handle_scan offline (Some ''https://github.com/NoGraveDev/shovel'') idle_host))
   \<and> commands (snd (handle_scan offline (Some ''https://github.com/NoGraveDev/shovel'') idle_host))
       = [clone_command ''https://github.com/NoGraveDev/shovel''
            ''/tmp/shovel-scan-0123456789abcdef0123456789abcdef'']
   \<and> \<not> isValidGitHubUrl ''https://example.com/owner/repo''
   \<and> fst (handle_scan offline (Some ''https://example.com/owner/repo'') idle_host)
       = Failure 400 ''Invalid GitHub URL format''
   \<and> snd (handle_scan offline (Some ''https://example.com/owner/repo'') idle_host) = idle_host"
  using reference_validation[of "''https://github.com/NoGraveDev/shovel''" offline idle_host]
    reference_validation[of "''https://example.com/owner/repo''" offline idle_host]
    shovel_url_valid example_url_invalid
  by (simp add: tempDir_of_def offline_def idle_host_def)

subsection \<open>The size check\<close>

text \<open>When every link resolves, the walk throws exactly when the files add up to more than
  the ceiling.\<close>

lemma dir_loop_result:
  assumes "sofar \<le> sizeLimit" and "resolvable es"
  shows "snd (dir_loop dir sofar es) =
     (if sofar + total_size es > sizeLimit then Inl (Error ''Repository too large'')
      else Inr (sofar + total_size es))"
  using assms
proof (induction dir sofar es rule: dir_loop.induct)
  case (1 dir sofar)
  then show ?case by simp
next
  case (2 dir sofar n sz c rest)
  then show ?case
    by (auto simp: Let_def split: prod.splits)
next
  case (3 dir sofar n es rest)
  from "3.prems" have re: "resolvable es" and rr: "resolvable rest"
    by simp_all
  have inner: "snd (dir_loop (dir @ [n]) 0 es) =
     (if total_size es > sizeLimit then Inl (Error ''Repository too large'') else Inr (total_size es))"
    using "3.IH"(1) re by simp
  show ?case
  proof (cases "total_size es > sizeLimit")
    case True
    with inner show ?thesis
      by (cases "dir_loop (dir @ [n]) 0 es") auto
  next
    case False
    obtain seen where i: "dir_loop (dir @ [n]) 0 es = (seen, Inr (total_size es))"
      using inner False by (cases "dir_loop (dir @ [n]) 0 es") auto
    show ?thesis
    proof (cases "sofar + total_size es > sizeLimit")
      case True
      then show ?thesis by (simp add: i Let_def)
    next
      case False
      with "3.IH"(2)[OF i[symmetric] refl refl] rr show ?thesis
        by (auto simp: i Let_def add.assoc split: prod.splits)
    qed
  qed
next
  case (4 dir sofar n t rest)
  then show ?case by simp
next
  case (5 dir sofar n m rest)
  then show ?case by simp
qed

text \<open>A link that does not resolve stops the walk with the system's error, whatever the
  sizes of the files after it.\<close>

lemma dangling_tree_walk:
  "getDirSize ''/w'' dangling_tree
     = ([[''/w'', ''ghost'']],
        Inl (Error (''ENOENT: no such file or directory, stat '' @ [CHR 0x27] @ ''/w/ghost'' @ [CHR 0x27])))"
  by (simp add: dangling_tree_def getDirSize_def path_str_def)

lemma cleanup_removes: "disk (cleanupTempDir dir h) dir = None"
  by (simp add: cleanupTempDir_def)

text \<open>Whatever the fetch and the scan do, no directory is left at the workspace path once
  the handler has returned.\<close>

lemma handle_scan_cleans:
  assumes "isValidGitHubUrl url"
  shows "disk (snd (handle_scan e (Some url) h)) (tempDir_of e) = None"
proof -
  have n: "url \<noteq> []"
    using assms by (rule valid_url_nonempty)
  obtain r h' where c: "clone_and_scan e url (tempDir_of e) h = (r, h')"
    by (cases "clone_and_scan e url (tempDir_of e) h")
  show ?thesis
    using assms n by (cases r) (simp_all add: handle_scan_def Let_def c cleanup_removes)
qed

text \<open>Every error of the fetch step is answered as an unreachable repository: the
  prefix that \<^verbatim>\<open>cloneRepository\<close> adds is what the first test of the \<^verbatim>\<open>catch\<close> block
  looks for, so the test for \<^verbatim>\<open>too large\<close> is never reached by a clone error.\<close>

lemma clone_error_reply:
  "error_reply (''Failed to clone repository: '' @ msg)
     = Failure 400 ''Could not access repository. It may be private, deleted, or the URL is incorrect.''"
  by (simp add: error_reply_def)

lemma cloneRepository_error:
  assumes "fst (cloneRepository e url dir h) = Inl err"
  shows "\<exists>msg. err = Error (''Failed to clone repository: '' @ msg)"
  using assms
  by (auto simp: cloneRepository_def Let_def split: clone_outcome.splits sum.splits)

lemma fetch_error_reply:
  assumes "isValidGitHubUrl url" and "fst (cloneRepository e url (tempDir_of e) h) = Inl err"
  shows "fst (handle_scan e (Some url) h)
           = Failure 400 ''Could not access repository. It may be private, deleted, or the URL is incorrect.''"
proof -
  have n: "url \<noteq> []"
    using assms(1) by (rule valid_url_nonempty)
  obtain r h' where c: "cloneRepository e url (tempDir_of e) h = (r, h')"
    by (cases "cloneRepository e url (tempDir_of e) h")
  with assms(2) have r: "r = Inl err"
    by simp
  from cloneRepository_error[OF assms(2)] obtain msg
    where m: "err = Error (''Failed to clone repository: '' @ msg)"
    by blast
  have "message err = ''Failed to clone repository: '' @ msg"
    by (simp add: m message_def)
  then show ?thesis
    using assms(1) n clone_error_reply[of msg]
    by (simp add: handle_scan_def clone_and_scan_def c r Let_def)
qed

lemma cloneRepository_oversized:
  assumes "git_clone e url = Cloned es" and "resolvable es" and "total_size es > sizeLimit"
  shows "fst (cloneRepository e url dir h)
           = Inl (Error ''Failed to clone repository: Repository too large'')"
  using assms by (simp add: cloneRepository_def getDirSize_def dir_loop_result Let_def message_def)

text \<open>
  C6, where the code departs from the claim: a clone that holds a file of 60 MB beside a
  directory \<^verbatim>\<open>d\<close> of three files of 30 MB. The running total passes the ceiling of 100 MB at
  \<^verbatim>\<open>d/y.bin\<close> (60 + 30 + 30 MB), and a walk that aborts the instant the total exceeds the
  ceiling visits nothing after it. The code still calls \<^verbatim>\<open>fs.statSync\<close> on \<^verbatim>\<open>d/z.bin\<close>: the
  invocation for \<^verbatim>\<open>d\<close> has counted 90 MB only, and the throw comes when the total of \<^verbatim>\<open>d\<close>
  is added to its parent's. The request is then answered with the text for an unreachable
  repository and not with the one for a repository that is too large, which no error of
  the fetch step can reach.
\<close>

theorem nested_walk_overruns:
  "total_size nested_tree > sizeLimit
   \<and> getDirSize (tempDir_of nested_remote) nested_tree
       = ([[tempDir_of nested_remote, ''a.bin''], [tempDir_of nested_remote, ''d''],
           [tempDir_of nested_remote, ''d'', ''x.bin''], [tempDir_of nested_remote, ''d'', ''y.bin''],
           [tempDir_of nested_remote, ''d'', ''z.bin'']],
          Inl (Error ''Repository too large''))
   \<and> instant_abort 0 (walk_order [tempDir_of nested_remote] nested_tree)
       = [[tempDir_of nested_remote, ''a.bin''], [tempDir_of nested_remote, ''d''],
          [tempDir_of nested_remote, ''d'', ''x.bin''], [tempDir_of nested_remote, ''d'', ''y.bin'']]
   \<and> fst (cloneRepository nested_remote ''https://github.com/NoGraveDev/shovel''
            (tempDir_of nested_remote) idle_host)
       = Inl (Error ''Failed to clone repository: Repository too large'')
   \<and> fst (handle_scan nested_remote (Some ''https://github.com/NoGraveDev/shovel'') idle_host)
       = Failure 400 ''Could not access repository. It may be private, deleted, or the URL is incorrect.''
   \<and> fst (handle_scan nested_remote (Some ''https://github.com/NoGraveDev/shovel'') idle_host)
       \<noteq> Failure 400 ''Repository is too large (>100MB). Please try a smaller repository.''"
proof -
  have t: "total_size nested_tree > sizeLimit"
    by (simp add: nested_tree_def sizeLimit_def)
  have w: "getDirSize (tempDir_of nested_remote) nested_tree
       = ([[tempDir_of nested_remote, ''a.bin''], [tempDir_of nested_remote, ''d''],
           [tempDir_of nested_remote, ''d'', ''x.bin''], [tempDir_of nested_remote, ''d'', ''y.bin''],
           [tempDir_of nested_remote, ''d'', ''z.bin'']],
          Inl (Error ''Repository too large''))"
    by (simp add: nested_tree_def getDirSize_def sizeLimit_def)
  have i: "instant_abort 0 (walk_order [tempDir_of nested_remote] nested_tree)
       = [[tempDir_of nested_remote, ''a.bin''], [tempDir_of nested_remote, ''d''],
          [tempDir_of nested_remote, ''d'', ''x.bin''], [tempDir_of nested_remote, ''d'', ''y.bin'']]"
    by (simp add: nested_tree_def sizeLimit_def)
  have g: "git_clone nested_remote ''https://github.com/NoGraveDev/shovel'' = Cloned nested_tree"
    by (simp add: nested_remote_def clones_nested_def)
  have c: "fst (cloneRepository nested_remote ''https://github.com/NoGraveDev/shovel''
            (tempDir_of nested_remote) idle_host)
       = Inl (Error ''Failed to clone repository: Repository too large'')"
    by (simp add: cloneRepository_def g w Let_def message_def)
  have r: "fst (handle_scan nested_remote (Some ''https://github.com/NoGraveDev/shovel'') idle_host)
       = Failure 400 ''Could not access repository. It may be private, deleted, or the URL is incorrect.''"
    using fetch_error_reply[OF shovel_url_valid c] .
  show ?thesis
    using t w i c by (simp add: r)
qed

subsection \<open>The Ship Score\<close>

text \<open>The rounding returns a number it can represent: a non-negative multiple of a quarter
  below \<open>2\<^sup>5\<^sup>0\<close> has at most 52 significant bits.\<close>

lemma binade_le:
  assumes "0 < x"
  shows "2 powi binade x \<le> x"
proof (cases "x \<ge> 1")
  case True
  define n where "n = nat \<lfloor>x\<rfloor>"
  have n: "0 < n" "of_nat n \<le> x"
    using True by (simp_all add: n_def le_floor_iff)
  have "(2::nat) ^ (floorlog 2 n - 1) \<le> n"
    using floorlog_bounds[of n 2] n by simp
  then have "(of_nat ((2::nat) ^ (floorlog 2 n - 1)) :: rat) \<le> of_nat n"
    by (simp only: of_nat_le_iff)
  moreover have "(of_nat ((2::nat) ^ (floorlog 2 n - 1)) :: rat) = 2 ^ (floorlog 2 n - 1)"
    by simp
  ultimately have a: "(2::rat) ^ (floorlog 2 n - 1) \<le> x"
    using n(2) by linarith
  have p: "0 < floorlog 2 n"
  proof (rule ccontr)
    assume "\<not> 0 < floorlog 2 n"
    then have "floorlog 2 n = 0"
      by simp
    with floorlog_bounds[of n 2] n(1) show False
      by simp
  qed
  have "binade x = int (floorlog 2 n - 1)"
    using True p by (simp add: binade_def n_def)
  then show ?thesis
    using a by simp
next
  case False
  define n where "n = nat (\<lceil>1 / x\<rceil> - 1)"
  have y: "1 < 1 / x"
    using False assms by simp
  then have c: "2 \<le> \<lceil>1 / x\<rceil>"
    by (simp add: le_ceiling_iff)
  have "n < 2 ^ floorlog 2 n"
    using floorlog_bounds[of n 2] c by (simp add: n_def)
  then have "int n + 1 \<le> 2 ^ floorlog 2 n"
    by (metis Suc_leI of_nat_Suc of_nat_le_iff of_nat_numeral of_nat_power add.commute plus_1_eq_Suc)
  moreover have "int n = \<lceil>1 / x\<rceil> - 1"
    unfolding n_def using c by linarith
  ultimately have "\<lceil>1 / x\<rceil> \<le> 2 ^ floorlog 2 n"
    by linarith
  then have "1 / x \<le> of_int (2 ^ floorlog 2 n)"
    by (simp add: ceiling_le_iff)
  then have "1 / x \<le> 2 ^ floorlog 2 n"
    by simp
  then have "1 / 2 ^ floorlog 2 n \<le> x"
    using assms by (simp add: field_simps)
  moreover have "binade x = - int (floorlog 2 n)"
    using False by (simp add: binade_def n_def)
  ultimately show ?thesis
    by (simp add: power_int_minus field_simps)
qed

lemma round_even_int [simp]: "round_even (of_int n) = n"
  by (simp add: round_even_def)

lemma fl_dyadic:
  assumes "0 \<le> x" and "x < 2 ^ 50" and "x = of_nat m / 4"
  shows "fl x = x"
proof (cases "x = 0")
  case True
  then show ?thesis by (simp add: fl_def)
next
  case False
  with assms have pos: "0 < x" by simp
  define e where "e = binade x"
  have "2 powi e \<le> x"
    unfolding e_def using pos by (rule binade_le)
  then have lt: "(2::rat) powi e < 2 ^ 50"
    using assms(2) by linarith
  have e: "e < 50"
  proof (rule ccontr)
    assume "\<not> e < 50"
    then have "(2::rat) powi 50 \<le> 2 powi e"
      by (intro power_int_increasing) simp_all
    moreover have "(2::rat) powi 50 = 2 ^ 50"
      by simp
    ultimately show False
      using lt by linarith
  qed
  define k where "k = nat (50 - e)"
  have k: "50 - e = int k" "0 < k"
    using e by (simp_all add: k_def)
  have "x / 2 powi (e - 52) = x * 2 powi (52 - e)"
    by (simp add: power_int_diff field_simps)
  also have "\<dots> = of_nat m / 4 * (2 powi 2 * 2 powi (50 - e))"
    by (simp add: assms(3) power_int_add[symmetric] del: power_int_numeral)
  also have "\<dots> = of_nat m * 2 ^ k"
    by (simp add: k)
  also have "\<dots> = of_int (int m * 2 ^ k)"
    by simp
  finally have q: "x / 2 powi (e - 52) = of_int (int m * 2 ^ k)" .
  have "fl x = of_int (round_even (x / 2 powi (e - 52))) * 2 powi (e - 52)"
    using pos by (simp add: fl_def e_def Let_def)
  also have "\<dots> = x / 2 powi (e - 52) * 2 powi (e - 52)"
    unfolding q round_even_int ..
  also have "\<dots> = x"
    by simp
  finally show ?thesis .
qed


text \<open>The products of the scores \<open>0, 5, \<dots>, 100\<close> with the three weights, as the runtime
  computes them: each is the exact product.\<close>

lemma products_20: "list_all (\<lambda>k. fl (of_int (5 * k) * fl (20 / 100)) = of_int k) [0..20]"
  by code_simp

lemma products_15: "list_all (\<lambda>k. fl (of_int (5 * k) * fl (15 / 100)) = of_int (3 * k) / 4) [0..20]"
  by code_simp

lemma products_10: "list_all (\<lambda>k. fl (of_int (5 * k) * fl (10 / 100)) = of_int k / 2) [0..20]"
  by code_simp

lemma weights_nonzero: "fl (20 / 100) \<noteq> 0 \<and> fl (15 / 100) \<noteq> 0 \<and> fl (10 / 100) \<noteq> 0"
  by code_simp

lemma step5_cases:
  assumes "step5 s"
  obtains k where "s = 5 * k" and "k \<in> set [0..20]"
proof -
  from assms obtain k where k: "s = 5 * k"
    by (auto simp: step5_def)
  with assms have "0 \<le> k" "k \<le> 20"
    by (simp_all add: step5_def)
  then have "k \<in> set [0..20]"
    by simp
  with k show thesis
    by (rule that)
qed

lemma weighted_sum_mset:
  assumes "mset cs' = mset cs"
  shows "weighted_sum cs' = weighted_sum cs"
proof -
  have "\<And>xs. weighted_sum xs = sum_mset (image_mset (\<lambda>c. of_int (score c) * exact_weight (name c)) (mset xs))"
    unfolding weighted_sum_def by (metis mset_map sum_mset_sum_list)
  with assms show ?thesis
    by simp
qed

lemma weights_Frontend: "weights ''Frontend'' = Double (fl (20 / 100))"
  by (simp add: weights_def)

lemma weights_15:
  "weights ''Backend'' = Double (fl (15 / 100))"
  "weights ''Authentication'' = Double (fl (15 / 100))"
  "weights ''Database'' = Double (fl (15 / 100))"
  "weights ''Deployment Ready'' = Double (fl (15 / 100))"
  by (simp_all add: weights_def)

lemma weights_10:
  "weights ''Payments'' = Double (fl (10 / 100))"
  "weights ''Security'' = Double (fl (10 / 100))"
  by (simp_all add: weights_def)

lemma weights_other:
  assumes "n \<noteq> ''Frontend''" "n \<noteq> ''Backend''" "n \<noteq> ''Authentication''" "n \<noteq> ''Database''"
    "n \<noteq> ''Deployment Ready''" "n \<noteq> ''Payments''" "n \<noteq> ''Security''"
    and "n \<notin> set Object_prototype"
  shows "weights n = Undefined"
  using assms by (simp add: weights_def)

lemma exact_weight_other:
  assumes "n \<noteq> ''Frontend''" "n \<noteq> ''Backend''" "n \<noteq> ''Authentication''" "n \<noteq> ''Database''"
    "n \<noteq> ''Deployment Ready''" "n \<noteq> ''Payments''" "n \<noteq> ''Security''"
  shows "exact_weight n = 0"
  using assms by (simp add: exact_weight_def)

lemma exact_weight_known:
  "exact_weight ''Frontend'' = 1 / 5"
  "exact_weight ''Backend'' = 3 / 20"
  "exact_weight ''Authentication'' = 3 / 20"
  "exact_weight ''Database'' = 3 / 20"
  "exact_weight ''Deployment Ready'' = 3 / 20"
  "exact_weight ''Payments'' = 1 / 10"
  "exact_weight ''Security'' = 1 / 10"
  by (simp_all add: exact_weight_def)

lemma step5_quarters:
  assumes "step5 s"
  shows "\<exists>j. of_int s * exact_weight n = (of_nat j / 4 :: rat)"
    and "of_int s * exact_weight n \<le> 20"
proof -
  from assms obtain k where k: "s = 5 * k" and m: "k \<in> set [0..20]"
    by (rule step5_cases)
  from m have r: "0 \<le> k" "k \<le> 20"
    by simp_all
  have v: "exact_weight n = 1 / 5 \<or> exact_weight n = 3 / 20 \<or> exact_weight n = 1 / 10
             \<or> exact_weight n = 0"
    by (simp add: exact_weight_def)
  have ja: "(of_int k :: rat) = of_nat (nat (4 * k)) / 4"
    using r by simp
  have jb: "(of_int (3 * k) / 4 :: rat) = of_nat (nat (3 * k)) / 4"
    using r by simp
  have jc: "(of_int k / 2 :: rat) = of_nat (nat (2 * k)) / 4"
    using r by simp
  have jd: "(0 :: rat) = of_nat 0 / 4"
    by simp
  from v show "\<exists>j. of_int s * exact_weight n = (of_nat j / 4 :: rat)"
  proof (elim disjE)
    assume e: "exact_weight n = 1 / 5"
    have "of_int s * exact_weight n = (of_int k :: rat)"
      by (simp add: e k)
    with ja show ?thesis
      by (metis)
  next
    assume e: "exact_weight n = 3 / 20"
    have "of_int s * exact_weight n = (of_int (3 * k) / 4 :: rat)"
      by (simp add: e k)
    with jb show ?thesis
      by (metis)
  next
    assume e: "exact_weight n = 1 / 10"
    have "of_int s * exact_weight n = (of_int k / 2 :: rat)"
      by (simp add: e k)
    with jc show ?thesis
      by (metis)
  next
    assume e: "exact_weight n = 0"
    have "of_int s * exact_weight n = (0 :: rat)"
      by (simp add: e)
    with jd show ?thesis
      by (metis)
  qed
  have q: "(of_int k :: rat) \<le> 20" "(0 :: rat) \<le> of_int k"
    using r by simp_all
  from v show "of_int s * exact_weight n \<le> 20"
  proof (elim disjE)
    assume e: "exact_weight n = 1 / 5"
    show ?thesis using q by (simp add: e k)
  next
    assume e: "exact_weight n = 3 / 20"
    show ?thesis using q by (simp add: e k)
  next
    assume e: "exact_weight n = 1 / 10"
    show ?thesis using q by (simp add: e k)
  next
    assume e: "exact_weight n = 0"
    show ?thesis by (simp add: e)
  qed
qed

lemma weighted_score_exact:
  assumes s: "step5 s" and n: "n \<notin> set Object_prototype"
  shows "weighted_score s n = Some (of_int s * exact_weight n)"
proof -
  from s obtain k where k: "s = 5 * k" and m: "k \<in> set [0..20]"
    by (rule step5_cases)
  have a: "fl (of_int (5 * k) * fl (20 / 100)) = of_int k"
    using bspec[OF products_20[unfolded list_all_iff] m] .
  have b: "fl (of_int (5 * k) * fl (15 / 100)) = of_int (3 * k) / 4"
    using bspec[OF products_15[unfolded list_all_iff] m] .
  have c: "fl (of_int (5 * k) * fl (10 / 100)) = of_int k / 2"
    using bspec[OF products_10[unfolded list_all_iff] m] .
  have w20: "weighted_score s x = Some (of_int s * (1 / 5))"
    if "weights x = Double (fl (20 / 100))" for x
    unfolding weighted_score_def that k using a weights_nonzero by simp
  have w15: "weighted_score s x = Some (of_int s * (3 / 20))"
    if "weights x = Double (fl (15 / 100))" for x
    unfolding weighted_score_def that k using b weights_nonzero by simp
  have w10: "weighted_score s x = Some (of_int s * (1 / 10))"
    if "weights x = Double (fl (10 / 100))" for x
    unfolding weighted_score_def that k using c weights_nonzero by simp
  define goal where "goal \<longleftrightarrow> weighted_score s n = Some (of_int s * exact_weight n)"
  define A1 where "A1 \<longleftrightarrow> n = ''Frontend''"
  define A2 where "A2 \<longleftrightarrow> n = ''Backend''"
  define A3 where "A3 \<longleftrightarrow> n = ''Authentication''"
  define A4 where "A4 \<longleftrightarrow> n = ''Database''"
  define A5 where "A5 \<longleftrightarrow> n = ''Deployment Ready''"
  define A6 where "A6 \<longleftrightarrow> n = ''Payments''"
  define A7 where "A7 \<longleftrightarrow> n = ''Security''"
  have g1: "A1 \<Longrightarrow> goal"
    unfolding A1_def goal_def using w20[OF weights_Frontend] by (simp add: exact_weight_known)
  have g2: "A2 \<Longrightarrow> goal"
    unfolding A2_def goal_def using w15[OF weights_15(1)] by (simp add: exact_weight_known)
  have g3: "A3 \<Longrightarrow> goal"
    unfolding A3_def goal_def using w15[OF weights_15(2)] by (simp add: exact_weight_known)
  have g4: "A4 \<Longrightarrow> goal"
    unfolding A4_def goal_def using w15[OF weights_15(3)] by (simp add: exact_weight_known)
  have g5: "A5 \<Longrightarrow> goal"
    unfolding A5_def goal_def using w15[OF weights_15(4)] by (simp add: exact_weight_known)
  have g6: "A6 \<Longrightarrow> goal"
    unfolding A6_def goal_def using w10[OF weights_10(1)] by (simp add: exact_weight_known)
  have g7: "A7 \<Longrightarrow> goal"
    unfolding A7_def goal_def using w10[OF weights_10(2)] by (simp add: exact_weight_known)
  have g8: "goal" if "\<not> A1" "\<not> A2" "\<not> A3" "\<not> A4" "\<not> A5" "\<not> A6" "\<not> A7"
  proof -
    from that have d: "n \<noteq> ''Frontend''" "n \<noteq> ''Backend''" "n \<noteq> ''Authentication''"
      "n \<noteq> ''Database''" "n \<noteq> ''Deployment Ready''" "n \<noteq> ''Payments''" "n \<noteq> ''Security''"
      unfolding A1_def A2_def A3_def A4_def A5_def A6_def A7_def by blast+
    show ?thesis
      unfolding goal_def weighted_score_def weights_other[OF d n] exact_weight_other[OF d]
      by (simp add: fl_def)
  qed
  from g1 g2 g3 g4 g5 g6 g7 g8 have goal
    by blast
  then show ?thesis
    unfolding goal_def .
qed

lemma add_scores_exact:
  assumes "\<forall>c\<in>set cs. step5 (score c) \<and> name c \<notin> set Object_prototype"
    and "t = of_nat m / 4"
    and "t + 20 * of_nat (length cs) < 2 ^ 50"
  shows "add_scores (Some t) cs = Some (t + weighted_sum cs)"
  using assms
proof (induction cs arbitrary: t m)
  case Nil
  then show ?case
    by (simp add: weighted_sum_def)
next
  case (Cons c cs)
  define p where "p = of_int (score c) * exact_weight (name c)"
  from Cons.prems(1) have g: "step5 (score c)" "name c \<notin> set Object_prototype"
    by simp_all
  have w: "weighted_score (score c) (name c) = Some p"
    unfolding p_def using g by (rule weighted_score_exact)
  from step5_quarters(1)[OF g(1), of "name c"] obtain j where j: "p = of_nat j / 4"
    unfolding p_def by blast
  have le: "p \<le> 20"
    unfolding p_def using g(1) by (rule step5_quarters(2))
  have q: "t + p = of_nat (m + j) / 4"
    by (simp add: Cons.prems(2) j add_divide_distrib)
  have nn: "0 \<le> t + p"
    unfolding q by simp
  have lt: "t + p + 20 * of_nat (length cs) < 2 ^ 50"
    using Cons.prems(3) le by simp
  have "0 \<le> (20 :: rat) * of_nat (length cs)"
    by simp
  with lt have "t + p < 2 ^ 50"
    by linarith
  with nn have f: "fl (t + p) = t + p"
    using q by (rule fl_dyadic)
  have r: "\<forall>c\<in>set cs. step5 (score c) \<and> name c \<notin> set Object_prototype"
    using Cons.prems(1) by simp
  have "add_scores (Some t) (c # cs) = add_scores (Some (t + p)) cs"
    by (simp add: w f)
  also have "\<dots> = Some (t + p + weighted_sum cs)"
    using r q lt by (rule Cons.IH)
  also have "t + p + weighted_sum cs = t + weighted_sum (c # cs)"
    by (simp add: weighted_sum_def p_def)
  finally show ?case .
qed


lemma ship_score_exact:
  assumes "list_all (\<lambda>c. step5 (score c) \<and> name c \<notin> set Object_prototype) cs"
    and "length cs < 2 ^ 45"
  shows "calculateShipScore cs = Some (Aggregate cs)"
proof -
  have a: "\<forall>c\<in>set cs. step5 (score c) \<and> name c \<notin> set Object_prototype"
    using assms(1) by (simp add: list_all_iff)
  have "(of_nat (length cs) :: rat) < of_nat (2 ^ 45)"
    using assms(2) by (simp only: of_nat_less_iff)
  then have "(of_nat (length cs) :: rat) < 2 ^ 45"
    by simp
  then have b: "(0 :: rat) + 20 * of_nat (length cs) < 2 ^ 50"
    by simp
  have z: "(0 :: rat) = of_nat 0 / 4"
    by simp
  from add_scores_exact[OF a z b] show ?thesis
    by (simp add: calculateShipScore_def Math_round_def Aggregate_def)
qed

text \<open>Every amount a scorer adds or deducts is a multiple of 5, so every score is one.\<close>

lemma award_step5: "5 dvd n \<Longrightarrow> 5 dvd fst t \<Longrightarrow> 5 dvd fst (award c n f t)"
  by (simp add: award_def)

lemma min_step5: "5 dvd (a :: int) \<Longrightarrow> 5 dvd min a 100"
  by (simp add: min_def)

lemma backend_checks_step5: "5 dvd fst (backend_checks w)"
  by (simp add: backend_checks_def Let_def award_step5)

lemma frontend_checks_step5: "returns (\<lambda>t. 5 dvd fst t) (frontend_checks sd w)"
  unfolding frontend_checks_def Let_def
  by (auto intro!: returns_always award_step5)

lemma authentication_checks_step5: "returns (\<lambda>t. 5 dvd fst t) (authentication_checks w)"
  unfolding authentication_checks_def Let_def
  by (auto intro!: returns_always award_step5)

lemma database_checks_step5: "returns (\<lambda>t. 5 dvd fst t) (database_checks w)"
  unfolding database_checks_def Let_def
  by (auto intro!: returns_always award_step5)

lemma deployment_checks_step5: "returns (\<lambda>t. 5 dvd fst t) (deployment_checks w)"
  unfolding deployment_checks_def Let_def
  by (auto intro!: returns_always award_step5)

lemma scoreFrontend_step5:
  "returns (\<lambda>c. 5 dvd score c \<and> name c = ''Frontend'') (scoreFrontend sd w)"
  unfolding scoreFrontend_def
  by (simp, rule returns_mono[OF frontend_checks_step5]) (simp add: min_step5)

lemma scoreBackend_step5: "5 dvd score (scoreBackend w) \<and> name (scoreBackend w) = ''Backend''"
  by (simp add: scoreBackend_def backend_checks_step5 min_step5)

lemma scoreAuthentication_step5:
  "returns (\<lambda>c. 5 dvd score c \<and> name c = ''Authentication'') (scoreAuthentication w)"
  unfolding scoreAuthentication_def
  by (simp, rule returns_mono[OF authentication_checks_step5]) (simp add: min_step5)

lemma scoreDatabase_step5:
  "returns (\<lambda>c. 5 dvd score c \<and> name c = ''Database'') (scoreDatabase w)"
  unfolding scoreDatabase_def
  by (simp, rule returns_mono[OF database_checks_step5]) (simp add: min_step5)

lemma scorePayments_step5:
  "returns (\<lambda>c. 5 dvd score c \<and> name c = ''Payments'') (scorePayments w)"
  unfolding scorePayments_def
  by (simp, rule returns_mono[OF payments_checks_range]) (auto simp: Let_def)

lemma scoreDeploymentReady_step5:
  "returns (\<lambda>c. 5 dvd score c \<and> name c = ''Deployment Ready'') (scoreDeploymentReady w)"
  unfolding scoreDeploymentReady_def
  by (simp, rule returns_mono[OF deployment_checks_step5]) (simp add: min_step5)

lemma test_patterns_step5:
  "5 dvd fst st \<Longrightarrow> 5 dvd fst (snd (test_patterns rs content fname st))"
proof (induction rs arbitrary: st)
  case Nil
  then show ?case by simp
next
  case (Cons r rs)
  obtain sc fs stat where st: "st = (sc, fs, stat)"
    by (cases st)
  obtain hit r' where t: "regex_test r content = (hit, r')"
    by (cases "regex_test r content")
  define st1 where "st1 = (if hit \<and> \<not> str_includes fname ''.env.example''
                 then (sc - 30, fs @ [''Potential hardcoded API key found in '' @ fname], ''critical'')
                 else (sc, fs, stat))"
  have a: "5 dvd fst st1"
    using Cons.prems by (simp add: st st1_def)
  have b: "snd (test_patterns (r # rs) content fname st) = snd (test_patterns rs content fname st1)"
    by (simp add: st t st1_def split: prod.splits)
  show ?case
    unfolding b using a by (rule Cons.IH)
qed

lemma scan_files_step5: "5 dvd fst st \<Longrightarrow> 5 dvd fst (scan_files w fs rs st)"
proof (induction fs arbitrary: rs st)
  case Nil
  then show ?case by simp
next
  case (Cons f fs)
  obtain rs' st' where t: "test_patterns rs (readFile w f) (path_str f) st = (rs', st')"
    by (cases "test_patterns rs (readFile w f) (path_str f) st")
  have "5 dvd fst st'"
    using test_patterns_step5[OF Cons.prems, of rs "readFile w f" "path_str f"] by (simp add: t)
  then show ?case
    using Cons.IH[of st' rs'] by (simp add: t)
qed

lemma dotenv_check_step5: "5 dvd fst st \<Longrightarrow> 5 dvd fst (dotenv_check w st)"
  by (cases st) (simp add: dotenv_check_def)

lemma gitignore_check_step5: "5 dvd fst st \<Longrightarrow> 5 dvd fst (gitignore_check w st)"
  by (cases st) (simp add: gitignore_check_def Let_def)

lemma middleware_check_step5: "5 dvd fst st \<Longrightarrow> 5 dvd fst (middleware_check w st)"
  by (cases st) (simp add: middleware_check_def)

lemma security_checks_step5: "5 dvd fst (security_checks w)"
  unfolding security_checks_def
  by (intro middleware_check_step5 gitignore_check_step5 scan_files_step5 dotenv_check_step5) simp

lemma scoreSecurity_step5: "5 dvd score (scoreSecurity w)"
  using security_checks_step5[of w]
  by (cases "security_checks w") (simp add: scoreSecurity_def Let_def max_def)

lemma scan_scores:
  "returns (\<lambda>r. shipScore r = calculateShipScore (categories r)
                \<and> length (categories r) = 7
                \<and> list_all (\<lambda>c. step5 (score c) \<and> name c \<notin> set Object_prototype) (categories r))
     (scan w)"
proof (cases "scan_body w")
  case (Inl e)
  then show ?thesis by (simp add: scan_def)
next
  case (Inr r)
  then obtain sd c1 c3 c4 c5 c7 where
    c1: "scoreFrontend sd w = Inr c1" and c3: "scoreAuthentication w = Inr c3"
    and c4: "scoreDatabase w = Inr c4" and c5: "scorePayments w = Inr c5"
    and c7: "scoreDeploymentReady w = Inr c7"
    and r: "categories r = [c1, scoreBackend w, c3, c4, c5, scoreSecurity w, c7]"
    and s: "shipScore r = calculateShipScore [c1, scoreBackend w, c3, c4, c5, scoreSecurity w, c7]"
    unfolding scan_body_def by (auto elim!: bind_InrE simp: Let_def)
  note rs = returnsD[OF scoreFrontend_range c1] returnsD[OF scoreAuthentication_range c3]
    returnsD[OF scoreDatabase_range c4] returnsD[OF scorePayments_range c5]
    returnsD[OF scoreDeploymentReady_range c7] scoreBackend_range[of w] scoreSecurity_range[of w]
  note ds = returnsD[OF scoreFrontend_step5 c1] returnsD[OF scoreAuthentication_step5 c3]
    returnsD[OF scoreDatabase_step5 c4] returnsD[OF scorePayments_step5 c5]
    returnsD[OF scoreDeploymentReady_step5 c7] scoreBackend_step5[of w] scoreSecurity_step5[of w]
  have n: "''Frontend'' \<notin> set Object_prototype" "''Backend'' \<notin> set Object_prototype"
    "''Authentication'' \<notin> set Object_prototype" "''Database'' \<notin> set Object_prototype"
    "''Payments'' \<notin> set Object_prototype" "''Security'' \<notin> set Object_prototype"
    "''Deployment Ready'' \<notin> set Object_prototype"
    by (simp_all add: Object_prototype_def)
  show ?thesis
    using rs ds n by (simp add: scan_def Inr r s step5_def)
qed

text \<open>In every report of a scan the Ship Score is a number: the exact weighted sum of the
  seven scores, rounded.\<close>

lemma scan_ship_score: "returns (\<lambda>r. shipScore r = Some (Aggregate (categories r))) (scan w)"
proof (cases "scan w")
  case (Inl e)
  then show ?thesis by simp
next
  case (Inr r)
  from returnsD[OF scan_scores Inr]
  have s: "shipScore r = calculateShipScore (categories r)"
    and l: "length (categories r) = 7"
    and a: "list_all (\<lambda>c. step5 (score c) \<and> name c \<notin> set Object_prototype) (categories r)"
    by simp_all
  have "length (categories r) < 2 ^ 45"
    by (simp add: l)
  with a have "calculateShipScore (categories r) = Some (Aggregate (categories r))"
    by (rule ship_score_exact)
  then show ?thesis
    by (simp add: Inr s)
qed

lemma order_example:
  "calculateShipScore [scored ''Frontend'' 1, scored ''Backend'' 1, scored ''Authentication'' 41] = Some 6
   \<and> calculateShipScore [scored ''Frontend'' 1, scored ''Authentication'' 41, scored ''Backend'' 1] = Some 7"
  by code_simp

text \<open>
  C3 (as amended). For category scores that are multiples of 5 from 0 to 100, as all
  scores of a scan are, the Ship Score is the weighted sum of the scores with the fixed
  weights (20 hundredths for Frontend, 15 for Backend, Authentication, Database and
  Deployment Ready, 10 for Payments and Security), rounded to the nearest integer, a tie
  going up. A category that is absent contributes nothing, and so does one whose name is
  not in the table. The result depends on the multiset of the categories only, not on
  their order. This is stated for fewer than \<open>2\<^sup>4\<^sup>5\<close> categories, none of them named
  after a member that every object inherits.
\<close>

theorem ship_score_is_aggregate:
  assumes "list_all (\<lambda>c. step5 (score c) \<and> name c \<notin> set Object_prototype) cs"
    and "length cs < 2 ^ 45"
    and "mset cs' = mset cs"
  shows "calculateShipScore cs = Some (Aggregate cs)
     \<and> calculateShipScore cs' = calculateShipScore cs"
proof -
  have s: "set cs' = set cs"
    using assms(3) by (rule mset_eq_setD)
  have l: "length cs' = length cs"
    using assms(3) by (rule mset_eq_length)
  have a: "list_all (\<lambda>c. step5 (score c) \<and> name c \<notin> set Object_prototype) cs'"
    using assms(1) by (simp add: list_all_iff s)
  have "calculateShipScore cs' = Some (Aggregate cs')"
    using a assms(2) unfolding l[symmetric] by (rule ship_score_exact)
  moreover have "Aggregate cs' = Aggregate cs"
    by (simp add: Aggregate_def weighted_sum_mset[OF assms(3)])
  moreover have "calculateShipScore cs = Some (Aggregate cs)"
    using assms(1,2) by (rule ship_score_exact)
  ultimately show ?thesis
    by simp
qed

text \<open>The scores of a workspace that holds only a plain \<^verbatim>\<open>index.html\<close>, in the order of the
  scan and in the reverse order: the Ship Score is 12 both times.\<close>

theorem ship_score_is_aggregate_witness:
  "list_all (\<lambda>c. step5 (score c) \<and> name c \<notin> set Object_prototype) static_scores
   \<and> length static_scores < 2 ^ 45
   \<and> mset (rev static_scores) = mset static_scores
   \<and> Aggregate static_scores = 12
   \<and> calculateShipScore static_scores = Some 12
   \<and> calculateShipScore (rev static_scores) = Some 12"
proof -
  have a: "list_all (\<lambda>c. step5 (score c) \<and> name c \<notin> set Object_prototype) static_scores"
    unfolding static_scores_def list.pred_inject
    by (simp add: step5_def scored_def Object_prototype_def)
  have b: "length static_scores < 2 ^ 45"
    by (simp add: static_scores_def)
  have c: "mset (rev static_scores) = mset static_scores"
    by simp
  have d: "Aggregate static_scores = 12"
    by (simp add: Aggregate_def weighted_sum_def static_scores_def scored_def exact_weight_def
        floor_eq_iff)
  from ship_score_is_aggregate[OF a b c] show ?thesis
    using a b d by simp
qed

text \<open>
  C3, the claim as stated fails. With the scores 1, 1 and 41 for Frontend, Backend and
  Authentication the exact weighted sum is 6.5. Added in this order, the doubles give
  6.499999999999999 and the Ship Score 6; with Backend last they give 6.5 and the Ship
  Score 7.
\<close>

theorem ship_score_depends_on_order:
  "mset [scored ''Frontend'' 1, scored ''Authentication'' 41, scored ''Backend'' 1]
     = mset [scored ''Frontend'' 1, scored ''Backend'' 1, scored ''Authentication'' 41]
   \<and> Aggregate [scored ''Frontend'' 1, scored ''Backend'' 1, scored ''Authentication'' 41] = 7
   \<and> calculateShipScore [scored ''Frontend'' 1, scored ''Backend'' 1, scored ''Authentication'' 41] = Some 6
   \<and> calculateShipScore [scored ''Frontend'' 1, scored ''Authentication'' 41, scored ''Backend'' 1] = Some 7"
proof -
  have a: "Aggregate [scored ''Frontend'' 1, scored ''Backend'' 1, scored ''Authentication'' 41] = 7"
    by (simp add: Aggregate_def weighted_sum_def scored_def exact_weight_def)
  show ?thesis
    using order_example a by (simp add: add_mset_commute)
qed

end
